theory Spec2Isabelle
  imports Main "HOL-Library.Char_ord" "HOL-Library.List_Lexorder"
begin

section \<open>Python strings\<close>

text \<open>
  A Python \<open>str\<close> is modelled as a \<open>string\<close>: the list of the bytes of its UTF-8
  encoding, one byte for a character of the ASCII range. Equality, concatenation, the
  test \<open>in\<close> and the order of strings are then those of Python (UTF-8 keeps the order of
  the code points); the length and the slices of a string count code points, not bytes.
  \<open>str.strip\<close> and \<open>str.lower\<close> follow the Unicode tables of Python, which are no part of
  the program: \<open>strip\<close> and \<open>lower\<close> below are these functions on ASCII text, used where
  the program lowers a result string to look for an ASCII phrase in it; where the program
  strips and lowers free text (the domains, the selectors), the two functions are
  parameters, a \<open>str_ops\<close>.
\<close>

fun is_prefix :: "'a list \<Rightarrow> 'a list \<Rightarrow> bool" where
  "is_prefix [] ys = True"
| "is_prefix (x # xs) [] = False"
| "is_prefix (x # xs) (y # ys) = (x = y \<and> is_prefix xs ys)"

text \<open>\<open>sub in s\<close>: the string \<open>sub\<close> occurs in \<open>s\<close> as a contiguous run.\<close>

fun contains :: "string \<Rightarrow> string \<Rightarrow> bool" where
  "contains sub [] = (sub = [])"
| "contains sub (c # cs) = (is_prefix sub (c # cs) \<or> contains sub cs)"

text \<open>
  \<open>s.replace(old, new)\<close>: occurrences of \<open>old\<close> are found from the left and do not
  overlap; an empty \<open>old\<close> matches before every character and at the end. After a
  match at \<open>c # cs\<close> the scan goes on behind it, at \<open>drop (length old - 1) cs\<close>.
\<close>

fun replace_from :: "string \<Rightarrow> string \<Rightarrow> string \<Rightarrow> string" where
  "replace_from old new [] = []"
| "replace_from old new (c # cs) =
     (if old \<noteq> [] \<and> is_prefix old (c # cs)
      then new @ replace_from old new (drop (length old - 1) cs)
      else c # replace_from old new cs)"

definition str_replace :: "string \<Rightarrow> string \<Rightarrow> string \<Rightarrow> string" where
  "str_replace s old new =
     (if old = [] then new @ concat (map (\<lambda>c. c # new) s) else replace_from old new s)"

text \<open>
  \<open>str.isspace\<close> on one character: tab, line feed, vertical tab, form feed, carriage
  return, the four separators \<open>0x1c\<close> to \<open>0x1f\<close>, and the space.
\<close>

definition is_space :: "char \<Rightarrow> bool" where
  "is_space c =
     (let n = (of_char c :: nat) in (9 \<le> n \<and> n \<le> 13) \<or> (28 \<le> n \<and> n \<le> 32))"

definition strip :: "string \<Rightarrow> string" where
  "strip s = rev (dropWhile is_space (rev (dropWhile is_space s)))"

definition lower_char :: "char \<Rightarrow> char" where
  "lower_char c =
     (let n = (of_char c :: nat) in if 65 \<le> n \<and> n \<le> 90 then char_of (n + 32) else c)"

definition lower :: "string \<Rightarrow> string" where
  "lower s = map lower_char s"

record str_ops =
  str_strip :: "string \<Rightarrow> string"
  str_lower :: "string \<Rightarrow> string"

text \<open>
  \<open>len(s)\<close> and \<open>s[:n]\<close>: the code points of a string are counted by the bytes that
  start one, those that are no continuation byte (\<open>0x80\<close> to \<open>0xbf\<close>).
\<close>

definition is_continuation :: "char \<Rightarrow> bool" where
  "is_continuation c = (let n = (of_char c :: nat) in 128 \<le> n \<and> n < 192)"

definition str_len :: "string \<Rightarrow> nat" where
  "str_len s = length (filter (\<lambda>c. \<not> is_continuation c) s)"

fun str_take :: "nat \<Rightarrow> string \<Rightarrow> string" where
  "str_take n [] = []"
| "str_take n (c # cs) =
     (if is_continuation c then c # str_take n cs
      else case n of 0 \<Rightarrow> [] | Suc k \<Rightarrow> c # str_take k cs)"

section \<open>helper.py\<close>

text \<open>
  \<open>replace_characters(record_to_check, char_to_replace=";", new_char=",")\<close>: the empty
  string is returned as it is, any other string goes through \<open>str.replace\<close>.
\<close>

definition replace_characters :: "string \<Rightarrow> string \<Rightarrow> string \<Rightarrow> string" where
  "replace_characters record_to_check char_to_replace new_char =
     (if record_to_check = [] then []
      else str_replace record_to_check char_to_replace new_char)"

text \<open>The call with its default arguments.\<close>

definition replace_characters_default :: "string \<Rightarrow> string" where
  "replace_characters_default record_to_check = replace_characters record_to_check '';'' '',''"

text \<open>
  The loop of \<open>cleanup_domains_list\<close> that removes duplicates: \<open>seen\<close> is the set of
  strings met so far, \<open>unique_domains\<close> the list built so far. The function itself takes
  \<open>str.strip\<close> and \<open>str.lower\<close> as \<open>py\<close>.
\<close>

fun unique_loop :: "string list \<Rightarrow> string set \<Rightarrow> string list \<Rightarrow> string list" where
  "unique_loop [] seen unique_domains = unique_domains"
| "unique_loop (domain # cleaned) seen unique_domains =
     (if domain \<notin> seen
      then unique_loop cleaned (insert domain seen) (unique_domains @ [domain])
      else unique_loop cleaned seen unique_domains)"

definition cleanup_domains_list :: "str_ops \<Rightarrow> string list \<Rightarrow> string list" where
  "cleanup_domains_list py domains =
     (if domains = [] then []
      else let cleaned = map (\<lambda>d. str_lower py (str_strip py d))
                           (filter (\<lambda>d. str_strip py d \<noteq> []) domains);
               unique_domains = unique_loop cleaned {} []
           in sort unique_domains)"

section \<open>config.py\<close>

text \<open>
  The two module globals of \<open>config.py\<close>. Directories are a set of paths: the ones
  \<open>os.makedirs\<close> has created.
\<close>

record config =
  RELATIVE_FILE_PATH :: string
  NAMESERVER_LIST :: "string list"

definition initial_config :: config where
  "initial_config =
     \<lparr>RELATIVE_FILE_PATH = ''resources/output/'',
      NAMESERVER_LIST = [''8.8.8.8'', ''8.8.4.4'', ''1.1.1.1'']\<rparr>"

datatype io_exn = PermissionError | OtherError string

datatype channel =
  PlainOut | ErrorOut | WarningOut | InfoOut | SuccessOut | FoundOut | NotFoundOut | PartialOut

type_synonym csv_row = "string list"

text \<open>
  What the program can change: the globals of \<open>config.py\<close>, the CSV files (a file is
  the sequence of rows handed to \<open>csv.writer\<close>), the directories made, the lines printed
  (each with the function of \<open>terminal_message_handler.py\<close> that printed it, \<open>PlainOut\<close>
  for the builtin \<open>print\<close>), and the domains handed to \<open>perform_complete_dns_check\<close>.
\<close>

record world =
  config :: config
  files :: "string \<rightharpoonup> csv_row list"
  dirs :: "string set"
  terminal :: "(channel \<times> string) list"
  checked :: "string list"

record domain_result =
  domain :: string
  mx :: string
  spf :: string
  dkim :: string
  dmarc :: string
  errors :: "string list"

datatype check_reply =
  CheckResult domain_result | CheckKeyboardInterrupt | CheckException string

text \<open>
  What the program cannot decide: whether \<open>os.makedirs\<close> or \<open>open\<close> raise on a path,
  whether a \<open>writerow\<close> raises (\<open>Some (k, e)\<close>: the call after \<open>k\<close> successful ones raises
  \<open>e\<close>), what \<open>perform_complete_dns_check\<close> of the absent module \<open>dns_lookup\<close> returns or
  raises, what \<open>validators.domain\<close> answers, whether an input file exists and what
  \<open>read_domains_from_file\<close> reads from it; and \<open>str.strip\<close> and \<open>str.lower\<close> of Python.
\<close>

record env =
  makedirs_raises :: "string \<Rightarrow> io_exn option"
  open_raises :: "string \<Rightarrow> io_exn option"
  writerow_raises :: "(nat \<times> io_exn) option"
  dns_check :: "string \<Rightarrow> string list option \<Rightarrow> int \<Rightarrow> bool \<Rightarrow> check_reply"
  validate_domain :: "string \<Rightarrow> bool"
  input_isfile :: "string \<Rightarrow> bool"
  input_domains :: "string \<Rightarrow> string list"
  builtins :: str_ops

text \<open>
  A call returns a value or ends the process: \<open>sys.exit(n)\<close> raises \<open>SystemExit\<close>,
  which no handler of the program catches.
\<close>

datatype 'a outcome = Returns 'a | Exits nat

type_synonym 'a action = "world \<Rightarrow> 'a outcome \<times> world"

definition return :: "'a \<Rightarrow> 'a action" where
  "return a w = (Returns a, w)"

definition sys_exit :: "nat \<Rightarrow> 'a action" where
  "sys_exit n w = (Exits n, w)"

definition bind :: "'a action \<Rightarrow> ('a \<Rightarrow> 'b action) \<Rightarrow> 'b action" where
  "bind m f w = (case m w of (Exits n, w') \<Rightarrow> (Exits n, w') | (Returns a, w') \<Rightarrow> f a w')"

definition endswith :: "string \<Rightarrow> string \<Rightarrow> bool" where
  "endswith s suffix = is_prefix (rev suffix) (rev s)"

definition backslash :: string where
  "backslash = [CHR 0x5C]"

text \<open>
  \<open>os.makedirs(path, exist_ok=True)\<close>: the empty path raises, any other path raises when
  the environment says so, and is a directory afterwards otherwise.
\<close>

definition makedirs :: "env \<Rightarrow> string \<Rightarrow> world \<Rightarrow> (io_exn + unit) \<times> world" where
  "makedirs e path w =
     (if path = [] then (Inl (OtherError (''[Errno 2] No such file or directory: '' @
                               [CHR 0x27, CHR 0x27])), w)
      else case makedirs_raises e path of
             Some x \<Rightarrow> (Inl x, w)
           | None \<Rightarrow> (Inr (), w\<lparr>dirs := insert path (dirs w)\<rparr>))"

definition update_path :: "env \<Rightarrow> string \<Rightarrow> world \<Rightarrow> bool \<times> world" where
  "update_path e path w =
     (let normalized_path = str_replace path backslash ''/'';
          normalized_path =
            (if \<not> endswith normalized_path ''/'' then normalized_path @ ''/''
             else normalized_path)
      in case makedirs e normalized_path w of
           (Inl x, w') \<Rightarrow> (False, w')
         | (Inr u, w') \<Rightarrow>
             (True, w'\<lparr>config := (config w')\<lparr>RELATIVE_FILE_PATH := normalized_path\<rparr>\<rparr>))"

definition get_nameserver_list :: "world \<Rightarrow> string list" where
  "get_nameserver_list w = NAMESERVER_LIST (config w)"

text \<open>Any number of calls of \<open>update_path\<close>, one after the other.\<close>

fun update_paths :: "env \<Rightarrow> string list \<Rightarrow> world \<Rightarrow> world" where
  "update_paths e [] w = w"
| "update_paths e (path # paths) w = update_paths e paths (snd (update_path e path w))"

definition initial_world :: world where
  "initial_world =
     \<lparr>config = initial_config, files = Map.empty, dirs = {}, terminal = [], checked = []\<rparr>"

section \<open>terminal\_message\_handler.py\<close>

definition emit :: "channel \<Rightarrow> string \<Rightarrow> world \<Rightarrow> world" where
  "emit ch message w = w\<lparr>terminal := terminal w @ [(ch, message)]\<rparr>"

text \<open>\<open>print_error(message, fatal=True)\<close> prints, and ends the process when \<open>fatal\<close>.\<close>

definition print_error :: "string \<Rightarrow> bool \<Rightarrow> unit action" where
  "print_error message fatal w =
     (if fatal then sys_exit 1 (emit ErrorOut message w)
      else return () (emit ErrorOut message w))"

definition print_warning :: "string \<Rightarrow> world \<Rightarrow> world" where
  "print_warning message w = emit WarningOut message w"

definition print_info :: "string \<Rightarrow> world \<Rightarrow> world" where
  "print_info message w = emit InfoOut message w"

definition print_success :: "string \<Rightarrow> world \<Rightarrow> world" where
  "print_success message w = emit SuccessOut message w"

definition print_found :: "string \<Rightarrow> world \<Rightarrow> world" where
  "print_found message w = emit FoundOut message w"

definition print_not_found :: "string \<Rightarrow> world \<Rightarrow> world" where
  "print_not_found message w = emit NotFoundOut message w"

definition print_partial :: "string \<Rightarrow> world \<Rightarrow> world" where
  "print_partial message w = emit PartialOut message w"

definition print_plain :: "string \<Rightarrow> world \<Rightarrow> world" where
  "print_plain message w = emit PlainOut message w"

section \<open>csv\_helper.py\<close>

definition OUTPUT_FILENAME :: string where
  "OUTPUT_FILENAME = ''esdar-check_result.csv''"

text \<open>\<open>os.path.join\<close> of a directory and a relative file name, and \<open>os.path.dirname\<close>.\<close>

definition path_join :: "string \<Rightarrow> string \<Rightarrow> string" where
  "path_join a b = (if a = [] \<or> endswith a ''/'' then a @ b else a @ ''/'' @ b)"

definition dirname :: "string \<Rightarrow> string" where
  "dirname p =
     (let head = rev (dropWhile (\<lambda>c. c \<noteq> CHR ''/'') (rev p))
      in if head \<noteq> [] \<and> head \<noteq> replicate (length head) (CHR ''/'')
         then rev (dropWhile (\<lambda>c. c = CHR ''/'') (rev head)) else head)"

definition get_output_filepath :: "world \<Rightarrow> string" where
  "get_output_filepath w =
     str_replace (path_join (RELATIVE_FILE_PATH (config w)) OUTPUT_FILENAME) backslash ''/''"

definition headers :: csv_row where
  "headers = [''Domain'', ''MX Record'', ''SPF Record'', ''DKIM Record'', ''DMARC Record'']"

text \<open>
  The row written for one result. Every result carries its five strings, so none of the
  defaults of \<open>result.get(key, '')\<close> is taken.
\<close>

definition result_row :: "domain_result \<Rightarrow> csv_row" where
  "result_row result = [domain result, mx result, spf result, dkim result, dmarc result]"

text \<open>
  The calls of \<open>writer.writerow\<close>, in order, on the rows of an open file; \<open>budget\<close> is
  \<open>Some k\<close> when the call after \<open>k\<close> successful ones raises.
\<close>

fun writerows :: "nat option \<Rightarrow> csv_row list \<Rightarrow> csv_row list \<Rightarrow> bool \<times> csv_row list" where
  "writerows budget [] content = (True, content)"
| "writerows None (row # rows) content = writerows None rows (content @ [row])"
| "writerows (Some 0) (row # rows) content = (False, content)"
| "writerows (Some (Suc k)) (row # rows) content = writerows (Some k) rows (content @ [row])"

text \<open>The body of the \<open>try\<close> of \<open>write_results_to_csv\<close>, up to the first exception.\<close>

definition write_block ::
  "env \<Rightarrow> string \<Rightarrow> bool \<Rightarrow> domain_result list \<Rightarrow> bool \<Rightarrow> world \<Rightarrow> (io_exn + unit) \<times> world"
where
  "write_block e filepath file_exists results appending w =
     (case makedirs e (dirname filepath) w of
        (Inl x, w1) \<Rightarrow> (Inl x, w1)
      | (Inr u, w1) \<Rightarrow>
          (let write_header = (if appending then \<not> file_exists else True)
           in case open_raises e filepath of
                Some x \<Rightarrow> (Inl x, w1)
              | None \<Rightarrow>
                  (let opened =
                         (if appending
                          then (case files w1 filepath of None \<Rightarrow> [] | Some rows \<Rightarrow> rows)
                          else []);
                       to_write =
                         (if write_header then [headers] else []) @ map result_row results;
                       written = writerows (map_option fst (writerow_raises e)) to_write opened;
                       w2 = w1\<lparr>files := (files w1)(filepath \<mapsto> snd written)\<rparr>
                   in if fst written
                      then (Inr (), print_plain (''Results written to '' @ filepath) w2)
                      else (Inl (case writerow_raises e of
                                   Some (k, x) \<Rightarrow> x | None \<Rightarrow> OtherError []), w2))))"

definition write_results_to_csv :: "env \<Rightarrow> domain_result list \<Rightarrow> bool \<Rightarrow> bool action" where
  "write_results_to_csv e results appending w =
     (if results = [] then return False (print_warning ''No results to write to CSV'' w)
      else let filepath = get_output_filepath w;
               file_exists = (files w filepath \<noteq> None)
           in case write_block e filepath file_exists results appending w of
                (Inr u, w') \<Rightarrow> return True w'
              | (Inl PermissionError, w') \<Rightarrow>
                  bind (print_error (''Cannot write to '' @ filepath @
                          '' - file is open in another program. Please close it and try again.'')
                          True)
                       (\<lambda>u. return False) w'
              | (Inl (OtherError msg), w') \<Rightarrow>
                  bind (print_error (''Error writing to CSV file: '' @ msg) True)
                       (\<lambda>u. return False) w')"

section \<open>esdar-checker\_v2.py\<close>

definition newline :: string where
  "newline = [CHR 0x0A]"

definition rule60 :: string where
  "rule60 = replicate 60 (CHR ''='')"

text \<open>The three symbols outside ASCII that the messages use, as their UTF-8 bytes.\<close>

definition check_mark :: string where
  "check_mark = [CHR 0xE2, CHR 0x9C, CHR 0x93]"

definition ballot_x :: string where
  "ballot_x = [CHR 0xE2, CHR 0x9C, CHR 0x97]"

definition warning_sign :: string where
  "warning_sign = [CHR 0xE2, CHR 0x9A, CHR 0xA0]"

fun join :: "string \<Rightarrow> string list \<Rightarrow> string" where
  "join sep [] = []"
| "join sep [x] = x"
| "join sep (x # y # ys) = x @ sep @ join sep (y # ys)"

definition digit_char :: "nat \<Rightarrow> char" where
  "digit_char d = char_of (48 + d)"

fun str_nat :: "nat \<Rightarrow> string" where
  "str_nat n = (if n < 10 then [digit_char n] else str_nat (n div 10) @ [digit_char (n mod 10)])"

declare str_nat.simps [simp del]

text \<open>\<open>s.split(c)\<close> for a one-character separator.\<close>

fun split_on :: "char \<Rightarrow> string \<Rightarrow> string list" where
  "split_on c [] = [[]]"
| "split_on c (x # xs) =
     (if x = c then [] # split_on c xs
      else case split_on c xs of [] \<Rightarrow> [[x]] | p # ps \<Rightarrow> (x # p) # ps)"

definition parse_selectors :: "str_ops \<Rightarrow> string \<Rightarrow> string \<Rightarrow> string list" where
  "parse_selectors py selector_arg selectors_arg =
     (let selectors =
            (if selector_arg \<noteq> [] \<and> str_strip py selector_arg \<noteq> []
             then [str_strip py selector_arg] else []);
          selectors =
            (if selectors_arg \<noteq> [] \<and> str_strip py selectors_arg \<noteq> []
             then selectors @
                  map (str_strip py) (filter (\<lambda>s. str_strip py s \<noteq> [])
                                        (split_on (CHR '','') selectors_arg))
             else selectors)
      in unique_loop selectors {} [])"

text \<open>
  The tests that choose the colour of a line. They are written out twice in the source,
  in \<open>process_single_domain\<close> and in \<open>process_multiple_domains\<close>, word for word the same.
\<close>

definition mx_not_found :: "string \<Rightarrow> bool" where
  "mx_not_found v =
     (contains ''No MX'' v \<or> contains ''does not exist'' v \<or> contains ''timeout'' v
      \<or> contains ''error'' (lower v))"

definition spf_not_found :: "string \<Rightarrow> bool" where
  "spf_not_found v =
     (contains ''No SPF'' v \<or> contains ''does not exist'' v \<or> contains ''timeout'' v
      \<or> contains ''error'' (lower v))"

definition dkim_not_found :: "string \<Rightarrow> bool" where
  "dkim_not_found v =
     (let dkim_lower = lower v
      in contains ''no dkim'' dkim_lower \<or> contains ''no selector'' dkim_lower
         \<or> contains ''no selectors provided'' dkim_lower
         \<or> contains ''no valid selectors'' dkim_lower
         \<or> contains ''does not exist'' v \<or> contains ''timeout'' v
         \<or> contains ''error'' dkim_lower)"

definition dkim_no_selectors :: "string \<Rightarrow> bool" where
  "dkim_no_selectors v =
     (let dkim_lower = lower v
      in contains ''no selectors provided'' dkim_lower
         \<and> \<not> contains ''tested common selectors'' dkim_lower)"

definition dmarc_not_found :: "string \<Rightarrow> bool" where
  "dmarc_not_found v =
     (contains ''No DMARC'' v \<or> contains ''does not exist'' v \<or> contains ''timeout'' v
      \<or> contains ''error'' (lower v))"

definition announce_selectors :: "string list \<Rightarrow> bool \<Rightarrow> world \<Rightarrow> world" where
  "announce_selectors selectors auto_discover_dkim w =
     (if selectors \<noteq> [] then print_info (''DKIM selectors: '' @ join '', '' selectors) w
      else if auto_discover_dkim
      then print_info
             ''DKIM: Auto-discovering common selectors (--auto_discover_dkim flag enabled)'' w
      else print_info
             ''DKIM: No selector provided (use --auto_discover_dkim to test common selectors)'' w)"

definition selectors_argument :: "string list \<Rightarrow> string list option" where
  "selectors_argument selectors = (if selectors \<noteq> [] then Some selectors else None)"

text \<open>Whether the check of a domain returns a result, rather than raising.\<close>

definition check_returns :: "env \<Rightarrow> string list \<Rightarrow> int \<Rightarrow> bool \<Rightarrow> string \<Rightarrow> bool" where
  "check_returns e selectors timeout auto_discover_dkim domain_name =
     (case dns_check e domain_name (selectors_argument selectors) timeout auto_discover_dkim of
        CheckResult result \<Rightarrow> True
      | CheckKeyboardInterrupt \<Rightarrow> False
      | CheckException msg \<Rightarrow> False)"

text \<open>The four coloured lines of \<open>process_single_domain\<close>.\<close>

definition print_mx :: "domain_result \<Rightarrow> world \<Rightarrow> world" where
  "print_mx result w =
     (if mx_not_found (mx result) then print_not_found (''MX Records: '' @ mx result) w
      else print_found (''MX Records: '' @ mx result) w)"

definition print_spf :: "domain_result \<Rightarrow> world \<Rightarrow> world" where
  "print_spf result w =
     (if spf_not_found (spf result) then print_not_found (''SPF Record: '' @ spf result) w
      else print_found (''SPF Record: '' @ spf result) w)"

definition print_dkim :: "domain_result \<Rightarrow> world \<Rightarrow> world" where
  "print_dkim result w =
     (if dkim_not_found (dkim result)
      then if dkim_no_selectors (dkim result)
           then print_partial (''DKIM Record: '' @ dkim result) w
           else print_not_found (''DKIM Record: '' @ dkim result) w
      else print_found (''DKIM Record: '' @ dkim result) w)"

definition print_dmarc :: "domain_result \<Rightarrow> world \<Rightarrow> world" where
  "print_dmarc result w =
     (if dmarc_not_found (dmarc result)
      then print_not_found (''DMARC Record: '' @ dmarc result) w
      else print_found (''DMARC Record: '' @ dmarc result) w)"

definition print_errors :: "domain_result \<Rightarrow> world \<Rightarrow> world" where
  "print_errors result w =
     foldl (\<lambda>w' error. print_warning (''Warning: '' @ error) w') w (errors result)"

definition process_single_domain ::
  "env \<Rightarrow> string \<Rightarrow> string list \<Rightarrow> int \<Rightarrow> bool \<Rightarrow> bool \<Rightarrow> bool action"
where
  "process_single_domain e domain_name selectors timeout appending auto_discover_dkim w =
     (let w1 = print_plain (newline @ rule60) w;
          w2 = print_plain (''Checking domain: '' @ domain_name) w1;
          w3 = print_plain rule60 w2;
          w4 = announce_selectors selectors auto_discover_dkim w3;
          w5 = w4\<lparr>checked := checked w4 @ [domain_name]\<rparr>
      in case dns_check e domain_name (selectors_argument selectors) timeout
                auto_discover_dkim of
           CheckResult result \<Rightarrow>
             bind (write_results_to_csv e [result] appending)
                  (\<lambda>ok. if \<not> ok
                        then bind (print_error ''Failed to write result to CSV'' True)
                               (\<lambda>u. return False)
                        else return True)
                  (print_errors result
                     (print_dmarc result (print_dkim result (print_spf result
                        (print_mx result w5)))))
         | CheckKeyboardInterrupt \<Rightarrow>
             bind (print_error (newline @ ''Interrupted by user'') True)
                  (\<lambda>u. return False) w5
         | CheckException msg \<Rightarrow>
             bind (print_error (''Error checking domain '' @ domain_name @ '': '' @ msg) True)
                  (\<lambda>u. return False) w5)"

text \<open>
  The brief summary of \<open>process_multiple_domains\<close>: a value longer than 50 characters is
  cut after its first 50 characters and followed by three dots.
\<close>

definition brief :: "string \<Rightarrow> string \<Rightarrow> string" where
  "brief label v = (if str_len v > 50 then label @ str_take 50 v @ ''...'' else label @ v)"

definition print_summary :: "domain_result \<Rightarrow> world \<Rightarrow> world" where
  "print_summary result w =
     (let w1 = (if mx_not_found (mx result) then print_not_found (brief ''  MX: '' (mx result)) w
                else print_found ''  MX: Found'' w);
          w2 = (if spf_not_found (spf result)
                then print_not_found (brief ''  SPF: '' (spf result)) w1
                else print_found ''  SPF: Found'' w1);
          w3 = (if dkim_not_found (dkim result)
                then if dkim_no_selectors (dkim result)
                     then print_partial (brief ''  DKIM: '' (dkim result)) w2
                     else print_not_found (brief ''  DKIM: '' (dkim result)) w2
                else print_found ''  DKIM: Found'' w2)
      in if dmarc_not_found (dmarc result)
         then print_not_found (brief ''  DMARC: '' (dmarc result)) w3
         else print_found ''  DMARC: Found'' w3)"

text \<open>
  The statements both handlers of the loop share: the results collected so far are
  written when there are any, and the process exits with status 1.
\<close>

definition write_completed_and_exit :: "env \<Rightarrow> domain_result list \<Rightarrow> bool \<Rightarrow> 'a action" where
  "write_completed_and_exit e results appending w =
     (if results \<noteq> []
      then bind (write_results_to_csv e results appending) (\<lambda>ok. sys_exit 1)
             (print_info (''Writing '' @ str_nat (length results) @
                '' completed results to CSV...'') w)
      else sys_exit 1 w)"

text \<open>
  The \<open>for\<close> loop of \<open>process_multiple_domains\<close>; \<open>i\<close> counts from 1, \<open>n_domains\<close> is
  \<open>len(domains)\<close>, and the triple holds \<open>results\<close>, \<open>successful\<close> and \<open>failed\<close>.
\<close>

type_synonym batch = "domain_result list \<times> nat \<times> nat"

fun domains_loop ::
  "env \<Rightarrow> string list \<Rightarrow> int \<Rightarrow> bool \<Rightarrow> bool \<Rightarrow> bool \<Rightarrow> nat \<Rightarrow> nat \<Rightarrow> string list \<Rightarrow> batch
   \<Rightarrow> batch action"
where
  "domains_loop e selectors timeout appending skip_errors auto_discover_dkim n_domains i []
     b w = (Returns b, w)"
| "domains_loop e selectors timeout appending skip_errors auto_discover_dkim n_domains i
     (domain_name # rest) (results, successful, failed) w =
     (let w1 = print_plain (newline @ ''['' @ str_nat i @ ''/'' @ str_nat n_domains @
                 ''] Checking: '' @ domain_name) w;
          w2 = w1\<lparr>checked := checked w1 @ [domain_name]\<rparr>
      in case dns_check e domain_name (selectors_argument selectors) timeout
                auto_discover_dkim of
           CheckResult result \<Rightarrow>
             domains_loop e selectors timeout appending skip_errors auto_discover_dkim n_domains
               (Suc i) rest (results @ [result], Suc successful, failed)
               (print_summary result w2)
         | CheckKeyboardInterrupt \<Rightarrow>
             (case print_error (newline @ ''Interrupted by user'') True w2 of
                (Exits n, w3) \<Rightarrow> (Exits n, w3)
              | (Returns u, w3) \<Rightarrow> write_completed_and_exit e results appending w3)
         | CheckException msg \<Rightarrow>
             (case print_error (''  '' @ ballot_x @ '' Error checking '' @ domain_name @
                     '': '' @ msg) True w2 of
                (Exits n, w3) \<Rightarrow> (Exits n, w3)
              | (Returns u, w3) \<Rightarrow>
                  if \<not> skip_errors
                  then (case print_error
                               ''Stopping due to error (use --skip_errors to continue)'' True w3 of
                          (Exits n, w4) \<Rightarrow> (Exits n, w4)
                        | (Returns u, w4) \<Rightarrow> write_completed_and_exit e results appending w4)
                  else domains_loop e selectors timeout appending skip_errors
                         auto_discover_dkim n_domains (Suc i) rest
                         (results, successful, Suc failed) w3))"

definition process_multiple_domains ::
  "env \<Rightarrow> string list \<Rightarrow> string list \<Rightarrow> int \<Rightarrow> bool \<Rightarrow> bool \<Rightarrow> bool \<Rightarrow> unit action"
where
  "process_multiple_domains e domains selectors timeout appending skip_errors
     auto_discover_dkim w =
     (let w1 = print_plain (newline @ rule60) w;
          w2 = print_plain (''Processing '' @ str_nat (length domains) @ '' domain(s)'') w1;
          w3 = announce_selectors selectors auto_discover_dkim w2;
          w4 = print_plain (rule60 @ newline) w3
      in bind (domains_loop e selectors timeout appending skip_errors auto_discover_dkim
                 (length domains) 1 domains ([], 0, 0))
           (\<lambda>(results, successful, failed) w5.
              if results \<noteq> []
              then bind (write_results_to_csv e results appending)
                     (\<lambda>ok w6.
                        if ok
                        then (let w7 = print_success (check_mark @
                                         '' Successfully processed '' @ str_nat successful @
                                         '' domain(s)'') w6
                              in return ()
                                   (if failed > 0
                                    then print_warning (warning_sign @ '' '' @
                                           str_nat failed @ '' domain(s) failed'') w7
                                    else w7))
                        else bind (print_error ''Failed to write results to CSV'' True)
                               (\<lambda>u. return ()) w6)
                     (print_info (''Writing '' @ str_nat (length results) @
                        '' result(s) to CSV...'') (print_plain (newline @ rule60) w5))
              else bind (print_error ''No results to write'' True) (\<lambda>u. return ()) w5)
           w4)"

section \<open>domain\_validator.py and the main function\<close>

text \<open>The parsed command line; an option that was not given is \<open>None\<close>.\<close>

record args =
  arg_domain :: "string option"
  arg_domains_file :: "string option"
  arg_selector :: string
  arg_selectors :: string
  arg_auto_discover_dkim :: bool
  arg_append :: string
  arg_output_path :: "string option"
  arg_timeout :: int
  arg_skip_errors :: bool

text \<open>The truth value Python gives an optional string: false for \<open>None\<close> and for \<open>''\<close>.\<close>

definition given :: "string option \<Rightarrow> bool" where
  "given a = (case a of None \<Rightarrow> False | Some s \<Rightarrow> s \<noteq> [])"

definition validate_args :: "env \<Rightarrow> args \<Rightarrow> bool action" where
  "validate_args e a w =
     (let domain_arg_valid =
            (if given (arg_domain a) then validate_domain e (the (arg_domain a)) else True);
          w1 = (if \<not> domain_arg_valid
                then print_warning (''Domain '' @ [CHR 0x27] @ the (arg_domain a) @ [CHR 0x27] @
                       '' is not valid. Is it formatted correctly?'') w
                else w);
          domain_file_arg_valid =
            (if given (arg_domains_file a) then input_isfile e (the (arg_domains_file a))
             else True);
          w2 = (if \<not> domain_file_arg_valid
                then print_warning (''Domain file '' @ [CHR 0x27] @ the (arg_domains_file a) @
                       [CHR 0x27] @ '' does not exist or is not accessible.'') w1
                else w1);
          valid_args = (domain_arg_valid \<and> domain_file_arg_valid)
      in if \<not> valid_args
         then bind (print_error ''Arguments are invalid. Please check your input.'' True)
                (\<lambda>u. sys_exit 1) w2
         else return valid_args w2)"

text \<open>The domains \<open>main\<close> starts from: the one of \<open>--domain\<close>, or those of the file.\<close>

definition gather_domains :: "env \<Rightarrow> args \<Rightarrow> string list action" where
  "gather_domains e a w =
     (if given (arg_domain a) then return [the (arg_domain a)] w
      else if given (arg_domains_file a)
      then (let domains = input_domains e (the (arg_domains_file a))
            in if domains = []
               then bind (print_error ''No valid domains found in file'' True)
                      (\<lambda>u. sys_exit 1) w
               else return domains w)
      else return [] w)"

definition set_output_path :: "env \<Rightarrow> args \<Rightarrow> world \<Rightarrow> world" where
  "set_output_path e a w =
     (if given (arg_output_path a)
      then (case update_path e (the (arg_output_path a)) w of
              (ok, w') \<Rightarrow>
                if \<not> ok
                then print_warning (''Invalid output path: '' @ the (arg_output_path a) @
                       ''. Using default from config.py'') w'
                else w')
      else w)"

text \<open>The last part of \<open>main\<close>, from the clean-up of the domain list on.\<close>

definition process_domains ::
  "env \<Rightarrow> args \<Rightarrow> string list \<Rightarrow> bool \<Rightarrow> string list \<Rightarrow> unit action"
where
  "process_domains e a selectors append_mode gathered =
     (let domains = cleanup_domains_list (builtins e) gathered
      in if domains = []
         then bind (print_error ''No valid domains to check'' True) (\<lambda>u. sys_exit 1)
         else if length domains = 1
         then bind (process_single_domain e (hd domains) selectors (arg_timeout a)
                      append_mode (arg_auto_discover_dkim a))
                (\<lambda>success. if \<not> success then sys_exit 1 else return ())
         else process_multiple_domains e domains selectors (arg_timeout a)
                append_mode (arg_skip_errors a) (arg_auto_discover_dkim a))"

definition main :: "env \<Rightarrow> args \<Rightarrow> unit action" where
  "main e a =
     bind (validate_args e a)
       (\<lambda>valid w.
          let selectors = parse_selectors (builtins e) (arg_selector a) (arg_selectors a);
              w1 = set_output_path e a w;
              append_mode = (lower (arg_append a) = ''yes'')
          in bind (gather_domains e a) (process_domains e a selectors append_mode) w1)"

section \<open>The resolution engine (module dns\_lookup)\<close>

text \<open>
  Modelled from the spec: the module \<open>dns_lookup\<close>, whose \<open>perform_complete_dns_check\<close>
  the program imports, is not among the sources. What follows is sections 3 and 4 of the
  specification: the Resolver Client, the Outcome Classifier, the four Record-Type
  Strategies, the Selector Discovery Engine and the Aggregator \<open>checkDomain\<close>. What the
  specification leaves open is a parameter: the DNS itself, the separator of the mail
  exchangers, the list of candidate selectors and the text of a diagnostic.
\<close>

datatype record_type = MX | TXT

datatype resolver_failure = NXDOMAIN | TimedOut | Failure string

datatype QueryOutcome =
  Found string | NotFound | NonexistentDomain | Timeout | QueryError string

record engine_config =
  resolver :: "string \<Rightarrow> record_type \<Rightarrow> nat \<Rightarrow> resolver_failure + string list"
  mx_separator :: string
  selector_candidates :: "string list"
  diagnostic :: "string \<Rightarrow> QueryOutcome \<Rightarrow> string"

text \<open>The queries issued so far and the \<open>errors\<close> sequence of the result under way.\<close>

record engine =
  queries :: "(string \<times> record_type) list"
  diagnostics :: "string list"

text \<open>
  Modelled from the spec: the Outcome Classifier of section 4.2; \<open>pick\<close> is the success
  formatting of the strategy that asks, \<open>None\<close> when no answer is of its kind.
\<close>

definition classify ::
  "(string list \<Rightarrow> string option) \<Rightarrow> resolver_failure + string list \<Rightarrow> QueryOutcome"
where
  "classify pick reply =
     (case reply of
        Inl NXDOMAIN \<Rightarrow> NonexistentDomain
      | Inl TimedOut \<Rightarrow> Timeout
      | Inl (Failure detail) \<Rightarrow> QueryError detail
      | Inr rawAnswers \<Rightarrow> (case pick rawAnswers of None \<Rightarrow> NotFound | Some v \<Rightarrow> Found v))"

text \<open>Modelled from the spec: the Resolver Client of section 4.1, one query and its log.\<close>

definition query ::
  "engine_config \<Rightarrow> (string list \<Rightarrow> string option) \<Rightarrow> string \<Rightarrow> record_type \<Rightarrow> nat \<Rightarrow> engine
   \<Rightarrow> QueryOutcome \<times> engine"
where
  "query cfg pick name recordType timeoutSeconds st =
     (classify pick (resolver cfg name recordType timeoutSeconds),
      st\<lparr>queries := queries st @ [(name, recordType)]\<rparr>)"

text \<open>Modelled from the spec: the phrase table of section 4.3.\<close>

definition format_outcome :: "string \<Rightarrow> QueryOutcome \<Rightarrow> string" where
  "format_outcome type_name outcome =
     (case outcome of
        Found v \<Rightarrow> v
      | NotFound \<Rightarrow> ''No '' @ type_name @ '' record found''
      | NonexistentDomain \<Rightarrow> ''Domain does not exist''
      | Timeout \<Rightarrow> ''DNS query timeout''
      | QueryError detail \<Rightarrow> ''error: '' @ detail)"

text \<open>
  Modelled from the spec: section 4.5, a \<open>Timeout\<close> or \<open>QueryError\<close> met while resolving
  a field is appended to \<open>errors\<close>.
\<close>

definition is_trouble :: "QueryOutcome \<Rightarrow> bool" where
  "is_trouble outcome =
     (case outcome of Timeout \<Rightarrow> True | QueryError detail \<Rightarrow> True | _ \<Rightarrow> False)"

definition note_trouble :: "engine_config \<Rightarrow> string \<Rightarrow> QueryOutcome \<Rightarrow> engine \<Rightarrow> engine" where
  "note_trouble cfg label outcome st =
     (if is_trouble outcome
      then st\<lparr>diagnostics := diagnostics st @ [diagnostic cfg label outcome]\<rparr> else st)"

text \<open>Modelled from the spec: the success formatting of the four strategies (table of 4.3).\<close>

definition pick_mx :: "engine_config \<Rightarrow> string list \<Rightarrow> string option" where
  "pick_mx cfg rawAnswers =
     (if rawAnswers = [] then None else Some (join (mx_separator cfg) rawAnswers))"

definition pick_spf :: "string list \<Rightarrow> string option" where
  "pick_spf rawAnswers =
     map_option replace_characters_default (find (is_prefix ''v=spf1'') rawAnswers)"

definition pick_dmarc :: "string list \<Rightarrow> string option" where
  "pick_dmarc rawAnswers =
     map_option replace_characters_default (find (is_prefix ''v=DMARC1'') rawAnswers)"

definition pick_dkim :: "string list \<Rightarrow> string option" where
  "pick_dkim rawAnswers = (case rawAnswers of [] \<Rightarrow> None | v # vs \<Rightarrow> Some v)"

definition dkim_name :: "string \<Rightarrow> string \<Rightarrow> string" where
  "dkim_name selector domain_name = selector @ ''._domainkey.'' @ domain_name"

definition dmarc_name :: "string \<Rightarrow> string" where
  "dmarc_name domain_name = ''_dmarc.'' @ domain_name"

text \<open>
  Modelled from the spec: the probing loop of section 4.4. The selectors are queried in
  their order; the loop stops at the first \<open>Found\<close> and returns its value, with the
  failures met before it.
\<close>

fun try_selectors ::
  "engine_config \<Rightarrow> string \<Rightarrow> nat \<Rightarrow> string list \<Rightarrow> (string \<times> QueryOutcome) list \<Rightarrow> engine
   \<Rightarrow> (string option \<times> (string \<times> QueryOutcome) list) \<times> engine"
where
  "try_selectors cfg domain_name timeoutSeconds [] failures st = ((None, failures), st)"
| "try_selectors cfg domain_name timeoutSeconds (selector # rest) failures st =
     (case query cfg pick_dkim (dkim_name selector domain_name) TXT timeoutSeconds st of
        (Found v, st') \<Rightarrow> ((Some v, failures), st')
      | (outcome, st') \<Rightarrow>
          try_selectors cfg domain_name timeoutSeconds rest (failures @ [(selector, outcome)])
            st')"

definition em_dash :: string where
  "em_dash = [CHR 0xE2, CHR 0x80, CHR 0x94]"

definition note_failures ::
  "engine_config \<Rightarrow> (string \<times> QueryOutcome) list \<Rightarrow> engine \<Rightarrow> engine"
where
  "note_failures cfg failures st =
     st\<lparr>diagnostics := diagnostics st @ map (\<lambda>(selector, outcome). diagnostic cfg selector outcome)
                                           failures\<rparr>"

text \<open>
  Modelled from the spec: the Selector Discovery Engine of section 4.4, its three cases
  in the order of the text.
\<close>

definition discover_dkim ::
  "engine_config \<Rightarrow> string \<Rightarrow> string list \<Rightarrow> bool \<Rightarrow> nat \<Rightarrow> engine \<Rightarrow> string \<times> engine"
where
  "discover_dkim cfg domain_name explicitSelectors autoDiscover timeoutSeconds st =
     (if explicitSelectors \<noteq> []
      then (case try_selectors cfg domain_name timeoutSeconds explicitSelectors [] st of
              ((Some v, failures), st') \<Rightarrow>
                (v, note_failures cfg (filter (\<lambda>(selector, outcome). is_trouble outcome)
                                         failures) st')
            | ((None, failures), st') \<Rightarrow>
                (''No valid selectors found'', note_failures cfg failures st'))
      else if autoDiscover
      then (case try_selectors cfg domain_name timeoutSeconds (selector_candidates cfg) [] st of
              ((Some v, failures), st') \<Rightarrow>
                (v, note_failures cfg (filter (\<lambda>(selector, outcome). is_trouble outcome)
                                         failures) st')
            | ((None, failures), st') \<Rightarrow>
                (''No DKIM record found '' @ em_dash @ '' tested common selectors: '' @
                   join '', '' (selector_candidates cfg),
                 note_failures cfg (filter (\<lambda>(selector, outcome). is_trouble outcome)
                                      failures) st'))
      else (''No selectors provided'', st))"

text \<open>
  Modelled from the spec: the Aggregator of section 4.5. The four fields are resolved
  one after the other, each from its own queries; the result comes with the log of the
  queries issued.
\<close>

definition checkDomain ::
  "engine_config \<Rightarrow> string \<Rightarrow> string list \<Rightarrow> nat \<Rightarrow> bool
   \<Rightarrow> domain_result \<times> (string \<times> record_type) list"
where
  "checkDomain cfg domain_name selectors timeoutSeconds autoDiscover =
     (let st0 = \<lparr>queries = [], diagnostics = []\<rparr>;
          (mx_outcome, st1) = query cfg (pick_mx cfg) domain_name MX timeoutSeconds st0;
          st2 = note_trouble cfg ''MX'' mx_outcome st1;
          (spf_outcome, st3) = query cfg pick_spf domain_name TXT timeoutSeconds st2;
          st4 = note_trouble cfg ''SPF'' spf_outcome st3;
          (dkim_field, st5) =
            discover_dkim cfg domain_name selectors autoDiscover timeoutSeconds st4;
          (dmarc_outcome, st6) =
            query cfg pick_dmarc (dmarc_name domain_name) TXT timeoutSeconds st5;
          st7 = note_trouble cfg ''DMARC'' dmarc_outcome st6
      in (\<lparr>domain = domain_name,
           mx = format_outcome ''MX'' mx_outcome,
           spf = format_outcome ''SPF'' spf_outcome,
           dkim = dkim_field,
           dmarc = format_outcome ''DMARC'' dmarc_outcome,
           errors = diagnostics st7\<rparr>,
          queries st7))"

section \<open>Sample inputs\<close>

text \<open>
  A result with a given domain and DKIM string, \<open>str.strip\<close> and \<open>str.lower\<close> on ASCII
  text, and an environment in which no file operation raises and the checks are answered
  by a given function.
\<close>

definition ascii_ops :: str_ops where
  "ascii_ops = \<lparr>str_strip = strip, str_lower = lower\<rparr>"

definition sample_result :: "string \<Rightarrow> string \<Rightarrow> domain_result" where
  "sample_result d k =
     \<lparr>domain = d, mx = ''10 mail.'' @ d, spf = ''v=spf1 include:_spf.example.com ~all'',
      dkim = k, dmarc = ''No DMARC record found'', errors = [''DKIM: no selector given'']\<rparr>"

definition sample_env :: "(string \<Rightarrow> check_reply) \<Rightarrow> env" where
  "sample_env reply =
     \<lparr>makedirs_raises = (\<lambda>p. None), open_raises = (\<lambda>p. None), writerow_raises = None,
      dns_check = (\<lambda>d s t a. reply d), validate_domain = (\<lambda>d. True),
      input_isfile = (\<lambda>p. True), input_domains = (\<lambda>p. [''b.com '', ''A.com'', ''b.com'']),
      builtins = ascii_ops\<rparr>"

text \<open>
  Checks that raise at one domain and return a result at every other one, and a DKIM
  string that spells its second phrase in capitals.
\<close>

definition raising_at :: "string \<Rightarrow> check_reply \<Rightarrow> string \<Rightarrow> check_reply" where
  "raising_at bad reply d =
     (if d = bad then reply else CheckResult (sample_result d ''No selectors provided''))"

definition shouted_dkim :: string where
  "shouted_dkim = ''No selectors provided (TESTED COMMON SELECTORS: none)''"

text \<open>A command line that names a file of domains and sets nothing else.\<close>

definition sample_args :: args where
  "sample_args =
     \<lparr>arg_domain = None, arg_domains_file = Some ''domains.txt'', arg_selector = [],
      arg_selectors = [], arg_auto_discover_dkim = False, arg_append = ''no'',
      arg_output_path = None, arg_timeout = 10, arg_skip_errors = False\<rparr>"

text \<open>
  Two configurations of the engine: a DNS in which no name exists, and one in which, of
  the selectors \<open>a\<close>, \<open>b\<close> and \<open>c\<close> of \<open>example.com\<close>, the first times out and the other
  two hold a key.
\<close>

definition nxdomain_dns :: engine_config where
  "nxdomain_dns =
     \<lparr>resolver = (\<lambda>name recordType timeoutSeconds. Inl NXDOMAIN),
      mx_separator = '', '',
      selector_candidates = [''default'', ''dkim'', ''mail'', ''email'', ''google'',
                             ''selector1'', ''selector2'', ''k1'', ''s1''],
      diagnostic = (\<lambda>label outcome. label @ '': '' @ format_outcome ''DKIM'' outcome)\<rparr>"

definition sample_dns :: engine_config where
  "sample_dns =
     \<lparr>resolver = (\<lambda>name recordType timeoutSeconds.
                    if name = ''b._domainkey.example.com'' then Inr [''v=DKIM1; k=rsa; p=MIGf'']
                    else if name = ''a._domainkey.example.com'' then Inl TimedOut
                    else if name = ''c._domainkey.example.com'' then Inr [''v=DKIM1; k=rsa; p=MIIB'']
                    else if recordType = MX then Inr [''mx1.example.com'', ''mx2.example.com'']
                    else Inr [''google-site-verification=x'', ''v=spf1 ip4:192.0.2.0/24; ~all'']),
      mx_separator = '', '',
      selector_candidates = [''default'', ''dkim'', ''mail'', ''email'', ''google'',
                             ''selector1'', ''selector2'', ''k1'', ''s1''],
      diagnostic = (\<lambda>label outcome. label @ '': '' @ format_outcome ''DKIM'' outcome)\<rparr>"

section \<open>Properties of the string operations\<close>

lemma replace_from_single:
  "replace_from [a] [b] s = map (\<lambda>c. if c = a then b else c) s"
  by (induction s) auto

text \<open>
  C1. With its default arguments \<open>replace_characters\<close> returns its argument with every
  \<open>;\<close> turned into \<open>,\<close> and every other character kept in its place; the empty string
  is returned empty.
\<close>

theorem replace_characters_semicolons:
  "replace_characters_default s = map (\<lambda>c. if c = CHR '';'' then CHR '','' else c) s
   \<and> replace_characters_default [] = []"
  by (simp add: replace_characters_default_def replace_characters_def str_replace_def
      replace_from_single)


lemma is_space_lower_char: "is_space (lower_char c) = is_space c"
  by (auto simp: is_space_def lower_char_def Let_def)

lemma lower_char_idem: "lower_char (lower_char c) = lower_char c"
  by (auto simp: lower_char_def Let_def)

lemma lower_idem: "lower (lower s) = lower s"
  by (simp add: lower_def lower_char_idem)

lemma is_space_comp_lower: "is_space \<circ> lower_char = is_space"
  by (rule ext) (simp add: is_space_lower_char)

lemma strip_lower: "strip (lower s) = lower (strip s)"
  by (simp add: strip_def lower_def dropWhile_map rev_map is_space_comp_lower)

lemma strip_fixed:
  "s = [] \<or> (\<not> is_space (hd s) \<and> \<not> is_space (last s)) \<Longrightarrow> strip s = s"
proof (cases "s = []")
  case True
  then show ?thesis by (simp add: strip_def)
next
  case False
  assume "s = [] \<or> (\<not> is_space (hd s) \<and> \<not> is_space (last s))"
  with False have h: "\<not> is_space (hd s)" and l: "\<not> is_space (last s)" by simp_all
  from h have 1: "dropWhile is_space s = s" by (simp add: dropWhile_eq_self_iff)
  from l False have 2: "dropWhile is_space (rev s) = rev s"
    by (simp add: dropWhile_eq_self_iff hd_rev)
  show ?thesis by (simp add: strip_def 1 2)
qed

lemma last_dropWhile_ne: "dropWhile P xs \<noteq> [] \<Longrightarrow> last (dropWhile P xs) = last xs"
  by (induction xs) (auto split: if_splits)

lemma strip_ends:
  "strip s = [] \<or> (\<not> is_space (hd (strip s)) \<and> \<not> is_space (last (strip s)))"
proof (cases "strip s = []")
  case True
  then show ?thesis by simp
next
  case False
  define u where "u = dropWhile is_space s"
  define v where "v = dropWhile is_space (rev u)"
  have sv: "strip s = rev v" by (simp add: strip_def u_def v_def)
  with False have vne: "v \<noteq> []" by simp
  then have une: "u \<noteq> []" by (auto simp: v_def)
  have "\<not> is_space (hd v)" using vne unfolding v_def by (rule hd_dropWhile)
  moreover have "last v = last (rev u)" using vne unfolding v_def by (rule last_dropWhile_ne)
  moreover have "\<not> is_space (hd u)" using une unfolding u_def by (rule hd_dropWhile)
  ultimately show ?thesis using vne une by (simp add: sv hd_rev last_rev)
qed

lemma strip_idem: "strip (strip s) = strip s"
  by (rule strip_fixed) (rule strip_ends)

lemma unique_loop_set: "set (unique_loop xs seen acc) = set acc \<union> (set xs - seen)"
  by (induction xs seen acc rule: unique_loop.induct) auto

lemma unique_loop_distinct:
  "distinct acc \<Longrightarrow> set acc \<subseteq> seen \<Longrightarrow> distinct (unique_loop xs seen acc)"
  by (induction xs seen acc rule: unique_loop.induct) auto

lemma unique_loop_id:
  "distinct xs \<Longrightarrow> set xs \<inter> seen = {} \<Longrightarrow> unique_loop xs seen acc = acc @ xs"
  by (induction xs seen acc rule: unique_loop.induct) auto

section \<open>Properties of the file operations\<close>

lemmas print_defs = print_warning_def print_info_def print_success_def print_found_def
  print_not_found_def print_partial_def print_plain_def

lemma emit_frame [simp]:
  "terminal (emit ch m w) = terminal w @ [(ch, m)]"
  "checked (emit ch m w) = checked w"
  "files (emit ch m w) = files w"
  "dirs (emit ch m w) = dirs w"
  "config (emit ch m w) = config w"
  by (simp_all add: emit_def)

lemma print_error_fatal [simp]:
  "print_error m True w = (Exits 1, emit ErrorOut m w)"
  by (simp add: print_error_def sys_exit_def)

lemma bind_simps [simp]:
  "bind (return a) f w = f a w"
  "bind (sys_exit n) f w = (Exits n, w)"
  "bind (print_error m True) f w = (Exits 1, emit ErrorOut m w)"
  by (simp_all add: bind_def return_def sys_exit_def)

lemma replace_single_char:
  "str_replace s [a] [b] = map (\<lambda>c. if c = a then b else c) s"
  by (simp add: str_replace_def replace_from_single)

lemma writerows_None: "writerows None rows content = (True, content @ rows)"
  by (induction rows arbitrary: content) simp_all

lemma writerows_prefix:
  "\<exists>k. snd (writerows budget rows content) = content @ take k rows"
proof (induction budget rows content rule: writerows.induct)
  case (1 budget content)
  then show ?case by simp
next
  case (2 row rows content)
  then obtain k where "snd (writerows None rows (content @ [row])) = (content @ [row]) @ take k rows"
    by blast
  then have "snd (writerows None (row # rows) content) = content @ take (Suc k) (row # rows)"
    by simp
  then show ?case by blast
next
  case (3 row rows content)
  have "snd (writerows (Some 0) (row # rows) content) = content @ take 0 (row # rows)" by simp
  then show ?case by blast
next
  case (4 k row rows content)
  then obtain j where "snd (writerows (Some k) rows (content @ [row])) = (content @ [row]) @ take j rows"
    by blast
  then have "snd (writerows (Some (Suc k)) (row # rows) content) = content @ take (Suc j) (row # rows)"
    by simp
  then show ?case by blast
qed

lemma write_block_frame:
  "checked (snd (write_block e p ex rs app w)) = checked w"
  "config (snd (write_block e p ex rs app w)) = config w"
  by (auto simp: write_block_def makedirs_def Let_def print_defs split: option.splits prod.splits sum.splits)

lemma write_block_terminal:
  "\<exists>ls. terminal (snd (write_block e p ex rs app w)) = terminal w @ ls \<and> (\<forall>l\<in>set ls. fst l = PlainOut)"
  by (auto simp: write_block_def makedirs_def Let_def print_defs split: option.splits prod.splits sum.splits)

lemma write_results_frame:
  "checked (snd (write_results_to_csv e rs app w)) = checked w"
  "config (snd (write_results_to_csv e rs app w)) = config w"
  using write_block_frame[of e "get_output_filepath w" "files w (get_output_filepath w) \<noteq> None" rs app w]
  by (auto simp: write_results_to_csv_def Let_def print_defs return_def split: prod.splits sum.splits io_exn.splits)

lemma write_results_terminal:
  "\<exists>ls. terminal (snd (write_results_to_csv e rs app w)) = terminal w @ ls
        \<and> (\<forall>l\<in>set ls. fst l \<in> {PlainOut, ErrorOut, WarningOut})"
proof (cases "rs = []")
  case True
  then show ?thesis by (simp add: write_results_to_csv_def print_defs return_def)
next
  case False
  let ?p = "get_output_filepath w"
  obtain ls where ls: "terminal (snd (write_block e ?p (files w ?p \<noteq> None) rs app w)) = terminal w @ ls"
    "\<forall>l\<in>set ls. fst l = PlainOut"
    using write_block_terminal by blast
  show ?thesis
  proof (cases "write_block e ?p (files w ?p \<noteq> None) rs app w")
    case (Pair x w')
    with ls have t: "terminal w' = terminal w @ ls" by simp
    show ?thesis
    proof (cases x)
      case (Inr u)
      with Pair False t ls(2) show ?thesis
        by (auto simp: write_results_to_csv_def Let_def return_def)
    next
      case (Inl ex)
      show ?thesis
      proof (cases ex)
        case PermissionError
        with Inl Pair False t ls(2) show ?thesis
          by (auto simp: write_results_to_csv_def Let_def)
      next
        case (OtherError msg)
        with Inl Pair False t ls(2) show ?thesis
          by (auto simp: write_results_to_csv_def Let_def)
      qed
    qed
  qed
qed


lemma result_row_errors: "result_row (errors_update f r) = result_row r"
  by (simp add: result_row_def)

lemma map_result_row_errors:
  "map result_row (map (errors_update f) results) = map result_row results"
  by (simp add: result_row_errors)

lemma write_block_errors_ignored:
  "write_block e p ex (map (errors_update f) results) appending w =
   write_block e p ex results appending w"
  unfolding write_block_def map_result_row_errors ..

lemma dirname_nonempty:
  assumes "CHR ''/'' \<in> set p"
  shows "dirname p \<noteq> []"
proof -
  define hd0 where "hd0 = rev (dropWhile (\<lambda>c. c \<noteq> CHR ''/'') (rev p))"
  from assms have "dropWhile (\<lambda>c. c \<noteq> CHR ''/'') (rev p) \<noteq> []"
    by (simp add: dropWhile_eq_Nil_conv) 
  then have ne: "hd0 \<noteq> []" by (simp add: hd0_def)
  show ?thesis
  proof (cases "hd0 = replicate (length hd0) (CHR ''/'')")
    case True
    with ne show ?thesis by (simp add: dirname_def Let_def hd0_def[symmetric])
  next
    case False
    then obtain c where "c \<in> set hd0" "c \<noteq> CHR ''/''"
      by (metis replicate_eqI)
    then have "dropWhile (\<lambda>c. c = CHR ''/'') (rev hd0) \<noteq> []"
      by (auto simp: dropWhile_eq_Nil_conv)
    with False ne show ?thesis by (simp add: dirname_def Let_def hd0_def[symmetric])
  qed
qed

lemma output_filepath_slash:
  assumes "RELATIVE_FILE_PATH (config w) \<noteq> []"
  shows "CHR ''/'' \<in> set (get_output_filepath w)"
proof -
  let ?a = "RELATIVE_FILE_PATH (config w)"
  have "CHR ''/'' \<in> set (path_join ?a OUTPUT_FILENAME)"
  proof (cases "endswith ?a ''/''")
    case True
    then have "is_prefix ''/'' (rev ?a)" by (simp add: endswith_def)
    then have "CHR ''/'' \<in> set (rev ?a)" by (cases "rev ?a") auto
    then show ?thesis using assms by (simp add: path_join_def)
  next
    case False
    then show ?thesis using assms by (simp add: path_join_def)
  qed
  then show ?thesis
    by (auto simp: get_output_filepath_def backslash_def replace_single_char)
qed

lemma write_block_ok:
  assumes "RELATIVE_FILE_PATH (config w) \<noteq> []"
    and "makedirs_raises e (dirname (get_output_filepath w)) = None"
    and "open_raises e (get_output_filepath w) = None"
    and "writerow_raises e = None"
  shows "write_block e (get_output_filepath w) (files w (get_output_filepath w) \<noteq> None) results appending w =
     (Inr (), print_plain (''Results written to '' @ get_output_filepath w)
        (w\<lparr>dirs := insert (dirname (get_output_filepath w)) (dirs w),
           files := (files w)(get_output_filepath w \<mapsto>
             (if appending then (case files w (get_output_filepath w) of None \<Rightarrow> [] | Some rows \<Rightarrow> rows) else [])
             @ (if appending \<and> files w (get_output_filepath w) \<noteq> None then [] else [headers])
             @ map result_row results)\<rparr>))"
  using assms dirname_nonempty[OF output_filepath_slash[OF assms(1)]]
  by (auto simp: write_block_def makedirs_def  writerows_None Let_def)

lemma write_errors_ignored:
  "write_results_to_csv e (map (errors_update f) results) appending w =
   write_results_to_csv e results appending w"
  by (simp add: write_results_to_csv_def write_block_errors_ignored)


text \<open>
  C2. For a non-empty list of results, when no file operation raises,
  \<open>write_results_to_csv\<close> returns \<open>True\<close> and leaves in the output file: the rows it
  held before (when appending to an existing file), then the header row with exactly the
  five column names (always when overwriting, and when appending only if the file did not
  exist), then one row for each result, in order, whose five cells are the domain, mx,
  spf, dkim and dmarc strings of that result as they are. The \<open>errors\<close> of the results
  play no part: changing them changes nothing of what the call does.
\<close>

theorem write_results_to_csv_rows:
  assumes "results \<noteq> []"
    and "RELATIVE_FILE_PATH (config w) \<noteq> []"
    and "makedirs_raises e (dirname (get_output_filepath w)) = None"
    and "open_raises e (get_output_filepath w) = None"
    and "writerow_raises e = None"
  shows "fst (write_results_to_csv e results appending w) = Returns True
    \<and> files (snd (write_results_to_csv e results appending w)) (get_output_filepath w) =
        Some ((if appending
               then (case files w (get_output_filepath w) of
                       None \<Rightarrow> [[''Domain'', ''MX Record'', ''SPF Record'', ''DKIM Record'',
                                 ''DMARC Record'']]
                     | Some old_rows \<Rightarrow> old_rows)
               else [[''Domain'', ''MX Record'', ''SPF Record'', ''DKIM Record'',
                      ''DMARC Record'']])
              @ map (\<lambda>r. [domain r, mx r, spf r, dkim r, dmarc r]) results)
    \<and> write_results_to_csv e (map (errors_update f) results) appending w =
        write_results_to_csv e results appending w"
proof -
  have "write_results_to_csv e results appending w =
     (Returns True, print_plain (''Results written to '' @ get_output_filepath w)
        (w\<lparr>dirs := insert (dirname (get_output_filepath w)) (dirs w),
           files := (files w)(get_output_filepath w \<mapsto>
             (if appending then (case files w (get_output_filepath w) of None \<Rightarrow> [] | Some rows \<Rightarrow> rows) else [])
             @ (if appending \<and> files w (get_output_filepath w) \<noteq> None then [] else [headers])
             @ map result_row results)\<rparr>))"
    using assms(1) write_block_ok[OF assms(2-5)]
    by (simp add: write_results_to_csv_def Let_def return_def)
  then show ?thesis
    by (auto simp: write_errors_ignored print_defs headers_def result_row_def split: option.splits)
qed

theorem write_results_to_csv_rows_witness:
  "files (snd (write_results_to_csv (sample_env (\<lambda>d. CheckKeyboardInterrupt))
      [sample_result ''a.com'' ''k1'', sample_result ''b.com'' ''k2''] False initial_world))
      ''resources/output/esdar-check_result.csv'' =
     Some [[''Domain'', ''MX Record'', ''SPF Record'', ''DKIM Record'', ''DMARC Record''],
           [''a.com'', ''10 mail.a.com'', ''v=spf1 include:_spf.example.com ~all'', ''k1'',
            ''No DMARC record found''],
           [''b.com'', ''10 mail.b.com'', ''v=spf1 include:_spf.example.com ~all'', ''k2'',
            ''No DMARC record found'']]"
proof -
  have p: "get_output_filepath initial_world = ''resources/output/esdar-check_result.csv''"
    by code_simp
  have 1: "[sample_result ''a.com'' ''k1'', sample_result ''b.com'' ''k2''] \<noteq> []" by simp
  have 2: "RELATIVE_FILE_PATH (config initial_world) \<noteq> []"
    by (simp add: initial_world_def initial_config_def)
  have 3: "makedirs_raises (sample_env (\<lambda>d. CheckKeyboardInterrupt))
             (dirname (get_output_filepath initial_world)) = None"
    by (simp add: sample_env_def)
  have 4: "open_raises (sample_env (\<lambda>d. CheckKeyboardInterrupt))
             (get_output_filepath initial_world) = None"
    by (simp add: sample_env_def)
  have 5: "writerow_raises (sample_env (\<lambda>d. CheckKeyboardInterrupt)) = None"
    by (simp add: sample_env_def)
  show ?thesis
    using write_results_to_csv_rows[OF 1 2 3 4 5, of False]
    by (simp add: p sample_result_def)
qed

text \<open>
  C10. With an empty list of results \<open>write_results_to_csv\<close> returns \<open>False\<close> and
  touches neither a file nor a directory: nothing is created, truncated or written.
\<close>

theorem write_no_results:
  "fst (write_results_to_csv e [] appending w) = Returns False
   \<and> files (snd (write_results_to_csv e [] appending w)) = files w
   \<and> dirs (snd (write_results_to_csv e [] appending w)) = dirs w"
  by (simp add: write_results_to_csv_def return_def print_warning_def)

section \<open>Properties of the configuration\<close>

lemma update_path_nameservers:
  "NAMESERVER_LIST (config (snd (update_path e p w))) = NAMESERVER_LIST (config w)"
  by (simp add: update_path_def makedirs_def Let_def split: option.splits)

lemma update_paths_nameservers:
  "NAMESERVER_LIST (config (update_paths e ps w)) = NAMESERVER_LIST (config w)"
  by (induction ps arbitrary: w) (simp_all add: update_path_nameservers)

text \<open>
  C8. The nameserver list is never changed: \<open>get_nameserver_list\<close> returns the list set
  at start, \<open>8.8.8.8\<close>, \<open>8.8.4.4\<close>, \<open>1.1.1.1\<close>, at the start and after any number of
  calls of \<open>update_path\<close>; a call of \<open>update_path\<close>, whatever its argument and whether
  it returns \<open>True\<close> or \<open>False\<close>, changes no global of \<open>config.py\<close> other than
  \<open>RELATIVE_FILE_PATH\<close>.
\<close>

theorem nameserver_list_fixed:
  "get_nameserver_list initial_world = [''8.8.8.8'', ''8.8.4.4'', ''1.1.1.1'']
   \<and> get_nameserver_list (snd (update_path e p w)) = get_nameserver_list w
   \<and> get_nameserver_list (update_paths e ps initial_world) =
       [''8.8.8.8'', ''8.8.4.4'', ''1.1.1.1'']
   \<and> config (snd (update_path e p w)) =
       (config w)\<lparr>RELATIVE_FILE_PATH := RELATIVE_FILE_PATH (config (snd (update_path e p w)))\<rparr>"
  by (simp add: get_nameserver_list_def update_path_nameservers update_paths_nameservers
      initial_world_def initial_config_def)

section \<open>Properties of the printed lines\<close>

lemma print_warnings_terminal:
  "terminal (foldl (\<lambda>w' x. print_warning (f x) w') w xs) =
   terminal w @ map (\<lambda>x. (WarningOut, f x)) xs"
  by (induction xs arbitrary: w) (simp_all add: print_warning_def)

lemma print_warnings_frame:
  "checked (foldl (\<lambda>w' x. print_warning (f x) w') w xs) = checked w"
  "files (foldl (\<lambda>w' x. print_warning (f x) w') w xs) = files w"
  "dirs (foldl (\<lambda>w' x. print_warning (f x) w') w xs) = dirs w"
  "config (foldl (\<lambda>w' x. print_warning (f x) w') w xs) = config w"
  by (induction xs arbitrary: w) (simp_all add: print_warning_def)

lemma announce_selectors_frame [simp]:
  "\<exists>m. terminal (announce_selectors sels ad w) = terminal w @ [(InfoOut, m)]"
  "checked (announce_selectors sels ad w) = checked w"
  "files (announce_selectors sels ad w) = files w"
  "dirs (announce_selectors sels ad w) = dirs w"
  "config (announce_selectors sels ad w) = config w"
  by (simp_all add: announce_selectors_def print_info_def)

lemma print_errors_terminal:
  "terminal (print_errors r w) = terminal w @ map (\<lambda>x. (WarningOut, ''Warning: '' @ x)) (errors r)"
  unfolding print_errors_def by (rule print_warnings_terminal)

lemma print_errors_frame [simp]:
  "checked (print_errors r w) = checked w"
  "files (print_errors r w) = files w"
  "dirs (print_errors r w) = dirs w"
  "config (print_errors r w) = config w"
  unfolding print_errors_def by (rule print_warnings_frame)+

lemma print_mx_terminal:
  "terminal (print_mx r w) =
   terminal w @ [(if mx_not_found (mx r) then NotFoundOut else FoundOut, ''MX Records: '' @ mx r)]"
  by (simp add: print_mx_def print_defs)

lemma print_spf_terminal:
  "terminal (print_spf r w) =
   terminal w @ [(if spf_not_found (spf r) then NotFoundOut else FoundOut, ''SPF Record: '' @ spf r)]"
  by (simp add: print_spf_def print_defs)

lemma print_dkim_terminal:
  "terminal (print_dkim r w) =
   terminal w @ [(if dkim_not_found (dkim r)
                  then if dkim_no_selectors (dkim r) then PartialOut else NotFoundOut
                  else FoundOut, ''DKIM Record: '' @ dkim r)]"
  by (simp add: print_dkim_def print_defs)

lemma print_dmarc_terminal:
  "terminal (print_dmarc r w) =
   terminal w @ [(if dmarc_not_found (dmarc r) then NotFoundOut else FoundOut,
                  ''DMARC Record: '' @ dmarc r)]"
  by (simp add: print_dmarc_def print_defs)

lemma print_field_frame [simp]:
  "checked (print_mx r w) = checked w" "files (print_mx r w) = files w"
  "dirs (print_mx r w) = dirs w" "config (print_mx r w) = config w"
  "checked (print_spf r w) = checked w" "files (print_spf r w) = files w"
  "dirs (print_spf r w) = dirs w" "config (print_spf r w) = config w"
  "checked (print_dkim r w) = checked w" "files (print_dkim r w) = files w"
  "dirs (print_dkim r w) = dirs w" "config (print_dkim r w) = config w"
  "checked (print_dmarc r w) = checked w" "files (print_dmarc r w) = files w"
  "dirs (print_dmarc r w) = dirs w" "config (print_dmarc r w) = config w"
  by (simp_all add: print_mx_def print_spf_def print_dkim_def print_dmarc_def print_defs)

lemma print_lines_terminal:
  "terminal (print_errors r (print_dmarc r (print_dkim r (print_spf r (print_mx r w))))) =
   terminal w @
   [(if mx_not_found (mx r) then NotFoundOut else FoundOut, ''MX Records: '' @ mx r),
    (if spf_not_found (spf r) then NotFoundOut else FoundOut, ''SPF Record: '' @ spf r),
    (if dkim_not_found (dkim r)
     then if dkim_no_selectors (dkim r) then PartialOut else NotFoundOut
     else FoundOut, ''DKIM Record: '' @ dkim r),
    (if dmarc_not_found (dmarc r) then NotFoundOut else FoundOut, ''DMARC Record: '' @ dmarc r)]
   @ map (\<lambda>x. (WarningOut, ''Warning: '' @ x)) (errors r)"
  by (simp only: print_errors_terminal print_dmarc_terminal print_dkim_terminal
      print_spf_terminal print_mx_terminal append_assoc append_Cons append_Nil)

lemma single_domain_lines:
  assumes "dns_check e d (selectors_argument sels) t ad = CheckResult r"
  shows "\<exists>pre post. terminal (snd (process_single_domain e d sels t app ad w)) =
            terminal w @ pre @ [(if mx_not_found (mx r) then NotFoundOut else FoundOut, ''MX Records: '' @ mx r),
    (if spf_not_found (spf r) then NotFoundOut else FoundOut, ''SPF Record: '' @ spf r),
    (if dkim_not_found (dkim r)
     then if dkim_no_selectors (dkim r) then PartialOut else NotFoundOut
     else FoundOut, ''DKIM Record: '' @ dkim r),
    (if dmarc_not_found (dmarc r) then NotFoundOut else FoundOut, ''DMARC Record: '' @ dmarc r)] @ post
          \<and> (\<forall>l\<in>set (pre @ post). fst l \<in> {PlainOut, InfoOut, WarningOut, ErrorOut})"
proof -
  define four where "four = [(if mx_not_found (mx r) then NotFoundOut else FoundOut, ''MX Records: '' @ mx r),
    (if spf_not_found (spf r) then NotFoundOut else FoundOut, ''SPF Record: '' @ spf r),
    (if dkim_not_found (dkim r)
     then if dkim_no_selectors (dkim r) then PartialOut else NotFoundOut
     else FoundOut, ''DKIM Record: '' @ dkim r),
    (if dmarc_not_found (dmarc r) then NotFoundOut else FoundOut, ''DMARC Record: '' @ dmarc r)]"
  define w4 where "w4 = announce_selectors sels ad
     (print_plain rule60 (print_plain (''Checking domain: '' @ d) (print_plain (newline @ rule60) w)))"
  define w5 where "w5 = w4\<lparr>checked := checked w4 @ [d]\<rparr>"
  define w6 where "w6 = print_errors r (print_dmarc r (print_dkim r (print_spf r (print_mx r w5))))"
  obtain m where m: "terminal w4 = terminal w @ [(PlainOut, newline @ rule60),
      (PlainOut, ''Checking domain: '' @ d), (PlainOut, rule60), (InfoOut, m)]"
    using announce_selectors_frame(1)[of sels ad "print_plain rule60 (print_plain (''Checking domain: '' @ d) (print_plain (newline @ rule60) w))"]
    by (auto simp: w4_def print_defs)
  define pre where "pre = [(PlainOut, newline @ rule60),
      (PlainOut, ''Checking domain: '' @ d), (PlainOut, rule60), (InfoOut, m)]"
  have t6: "terminal w6 = terminal w @ pre @ four
     @ map (\<lambda>x. (WarningOut, ''Warning: '' @ x)) (errors r)"
    unfolding w6_def print_lines_terminal four_def[symmetric] by (simp add: w5_def m pre_def)
  obtain ls where ls: "terminal (snd (write_results_to_csv e [r] app w6)) = terminal w6 @ ls"
    "\<forall>l\<in>set ls. fst l \<in> {PlainOut, ErrorOut, WarningOut}"
    using write_results_terminal by blast
  have run: "process_single_domain e d sels t app ad w =
     bind (write_results_to_csv e [r] app)
       (\<lambda>ok. if \<not> ok then bind (print_error ''Failed to write result to CSV'' True) (\<lambda>u. return False)
              else return True) w6"
    using assms by (simp add: process_single_domain_def Let_def w6_def w5_def w4_def)
  have "\<exists>tl. terminal (snd (process_single_domain e d sels t app ad w)) = terminal w6 @ ls @ tl
      \<and> (\<forall>l\<in>set tl. fst l = ErrorOut)"
  proof (cases "write_results_to_csv e [r] app w6")
    case (Pair out w')
    with ls have t: "terminal w' = terminal w6 @ ls" by simp
    show ?thesis
    proof (cases out)
      case (Exits n)
      with Pair t show ?thesis by (simp add: run bind_def)
    next
      case (Returns ok)
      with Pair t show ?thesis by (cases ok) (simp_all add: run bind_def return_def)
    qed
  qed
  then obtain tl where tl: "terminal (snd (process_single_domain e d sels t app ad w)) = terminal w6 @ ls @ tl"
    "\<forall>l\<in>set tl. fst l = ErrorOut" by blast
  define post where "post = map (\<lambda>x. (WarningOut, ''Warning: '' @ x)) (errors r) @ ls @ tl"
  have "terminal (snd (process_single_domain e d sels t app ad w)) =
      terminal w @ pre @ four @ post"
    by (simp add: tl(1) t6 post_def)
  moreover have "\<forall>l\<in>set (pre @ post). fst l \<in> {PlainOut, InfoOut, WarningOut, ErrorOut}"
    using ls(2) tl(2) by (auto simp: pre_def post_def)
  ultimately show ?thesis unfolding four_def by blast
qed

text \<open>
  C5. When the check returns a result, \<open>process_single_domain\<close> prints four status
  lines in a row. The MX line is printed with the found status exactly when the mx string
  contains none of \<open>No MX\<close>, \<open>does not exist\<close>, \<open>timeout\<close> and, in any letter case,
  \<open>error\<close>, and with the not-found status otherwise; the SPF and DMARC lines likewise
  with \<open>No SPF\<close> and \<open>No DMARC\<close>. No other line is printed with a status.
\<close>

theorem status_lines_mx_spf_dmarc:
  assumes "dns_check e d (selectors_argument sels) t ad = CheckResult r"
  shows "\<exists>pre dk post.
     terminal (snd (process_single_domain e d sels t app ad w)) =
       terminal w @ pre @
       [(if contains ''No MX'' (mx r) \<or> contains ''does not exist'' (mx r)
            \<or> contains ''timeout'' (mx r) \<or> contains ''error'' (lower (mx r))
         then NotFoundOut else FoundOut, ''MX Records: '' @ mx r),
        (if contains ''No SPF'' (spf r) \<or> contains ''does not exist'' (spf r)
            \<or> contains ''timeout'' (spf r) \<or> contains ''error'' (lower (spf r))
         then NotFoundOut else FoundOut, ''SPF Record: '' @ spf r),
        dk,
        (if contains ''No DMARC'' (dmarc r) \<or> contains ''does not exist'' (dmarc r)
            \<or> contains ''timeout'' (dmarc r) \<or> contains ''error'' (lower (dmarc r))
         then NotFoundOut else FoundOut, ''DMARC Record: '' @ dmarc r)] @ post
     \<and> snd dk = ''DKIM Record: '' @ dkim r
     \<and> (\<forall>l\<in>set (pre @ post). fst l \<notin> {FoundOut, NotFoundOut, PartialOut})"
proof -
  obtain pre post where
    t: "terminal (snd (process_single_domain e d sels t app ad w)) =
          terminal w @ pre @
          [(if mx_not_found (mx r) then NotFoundOut else FoundOut, ''MX Records: '' @ mx r),
           (if spf_not_found (spf r) then NotFoundOut else FoundOut, ''SPF Record: '' @ spf r),
           (if dkim_not_found (dkim r)
            then if dkim_no_selectors (dkim r) then PartialOut else NotFoundOut
            else FoundOut, ''DKIM Record: '' @ dkim r),
           (if dmarc_not_found (dmarc r) then NotFoundOut else FoundOut,
            ''DMARC Record: '' @ dmarc r)] @ post"
    and o: "\<forall>l\<in>set (pre @ post). fst l \<in> {PlainOut, InfoOut, WarningOut, ErrorOut}"
    using single_domain_lines[OF assms] by blast
  have "fst l \<notin> {FoundOut, NotFoundOut, PartialOut}" if "l \<in> set (pre @ post)" for l
    using o that by force
  then have "\<forall>l\<in>set (pre @ post). fst l \<notin> {FoundOut, NotFoundOut, PartialOut}" by blast
  with t show ?thesis
    unfolding mx_not_found_def spf_not_found_def dmarc_not_found_def
    by (intro exI[of _ pre] exI[of _ post]
        exI[of _ "(if dkim_not_found (dkim r)
            then if dkim_no_selectors (dkim r) then PartialOut else NotFoundOut
            else FoundOut, ''DKIM Record: '' @ dkim r)"]) simp
qed

theorem status_lines_mx_spf_dmarc_witness:
  "(FoundOut, ''MX Records: 10 mail.a.com'') \<in> set (terminal (snd
      (process_single_domain
         (sample_env (\<lambda>d. CheckResult (sample_result d ''No selectors provided'')))
         ''a.com'' [] 10 False False initial_world)))
   \<and> (NotFoundOut, ''DMARC Record: No DMARC record found'') \<in> set (terminal (snd
      (process_single_domain
         (sample_env (\<lambda>d. CheckResult (sample_result d ''No selectors provided'')))
         ''a.com'' [] 10 False False initial_world)))"
proof -
  let ?e = "sample_env (\<lambda>d. CheckResult (sample_result d ''No selectors provided''))"
  let ?r = "sample_result ''a.com'' ''No selectors provided''"
  have h: "dns_check ?e ''a.com'' (selectors_argument []) 10 False = CheckResult ?r"
    by (simp add: sample_env_def)
  have m: "\<not> (contains ''No MX'' (mx ?r) \<or> contains ''does not exist'' (mx ?r)
            \<or> contains ''timeout'' (mx ?r) \<or> contains ''error'' (lower (mx ?r)))"
    by code_simp
  have d: "contains ''No DMARC'' (dmarc ?r)"
    by code_simp
  have mv: "mx ?r = ''10 mail.a.com''" and dv: "dmarc ?r = ''No DMARC record found''"
    by (simp_all add: sample_result_def)
  from status_lines_mx_spf_dmarc[OF h, of False initial_world] m d
  show ?thesis unfolding mv dv by auto
qed

text \<open>
  C4, as the code has it. When the lower-cased dkim string contains
  \<open>no selectors provided\<close> and does not contain \<open>tested common selectors\<close> (both
  phrases are looked for in the lower-cased string), \<open>process_single_domain\<close> prints the
  DKIM line with the partial status, and no other line with that status; the lines before
  and after the four status lines carry no status at all.
\<close>

theorem dkim_no_selectors_partial:
  assumes "dns_check e d (selectors_argument sels) t ad = CheckResult r"
    and "contains ''no selectors provided'' (lower (dkim r))"
    and "\<not> contains ''tested common selectors'' (lower (dkim r))"
  shows "\<exists>pre m s c post.
     terminal (snd (process_single_domain e d sels t app ad w)) =
       terminal w @ pre @ [m, s, (PartialOut, ''DKIM Record: '' @ dkim r), c] @ post
     \<and> (\<forall>l\<in>set (pre @ [m, s, c] @ post). fst l \<noteq> PartialOut)
     \<and> (\<forall>l\<in>set (pre @ post). fst l \<notin> {FoundOut, NotFoundOut})"
proof -
  obtain pre post where
    t: "terminal (snd (process_single_domain e d sels t app ad w)) =
          terminal w @ pre @
          [(if mx_not_found (mx r) then NotFoundOut else FoundOut, ''MX Records: '' @ mx r),
           (if spf_not_found (spf r) then NotFoundOut else FoundOut, ''SPF Record: '' @ spf r),
           (if dkim_not_found (dkim r)
            then if dkim_no_selectors (dkim r) then PartialOut else NotFoundOut
            else FoundOut, ''DKIM Record: '' @ dkim r),
           (if dmarc_not_found (dmarc r) then NotFoundOut else FoundOut,
            ''DMARC Record: '' @ dmarc r)] @ post"
    and o: "\<forall>l\<in>set (pre @ post). fst l \<in> {PlainOut, InfoOut, WarningOut, ErrorOut}"
    using single_domain_lines[OF assms(1)] by blast
  have 1: "dkim_not_found (dkim r)" using assms(2) by (simp add: dkim_not_found_def Let_def)
  have 2: "dkim_no_selectors (dkim r)" using assms(2,3) by (simp add: dkim_no_selectors_def Let_def)
  have "fst l \<notin> {FoundOut, NotFoundOut} \<and> fst l \<noteq> PartialOut" if "l \<in> set (pre @ post)" for l
    using o that by force
  then have "\<forall>l\<in>set (pre @ post). fst l \<notin> {FoundOut, NotFoundOut} \<and> fst l \<noteq> PartialOut"
    by blast
  with t 1 2 show ?thesis
    by (intro exI[of _ pre] exI[of _ post]
        exI[of _ "(if mx_not_found (mx r) then NotFoundOut else FoundOut, ''MX Records: '' @ mx r)"]
        exI[of _ "(if spf_not_found (spf r) then NotFoundOut else FoundOut, ''SPF Record: '' @ spf r)"]
        exI[of _ "(if dmarc_not_found (dmarc r) then NotFoundOut else FoundOut,
            ''DMARC Record: '' @ dmarc r)"]) auto
qed

theorem dkim_no_selectors_partial_witness:
  "(PartialOut, ''DKIM Record: No selectors provided'') \<in> set (terminal (snd
      (process_single_domain
         (sample_env (\<lambda>d. CheckResult (sample_result d ''No selectors provided'')))
         ''a.com'' [] 10 False False initial_world)))"
proof -
  let ?e = "sample_env (\<lambda>d. CheckResult (sample_result d ''No selectors provided''))"
  let ?r = "sample_result ''a.com'' ''No selectors provided''"
  have h: "dns_check ?e ''a.com'' (selectors_argument []) 10 False = CheckResult ?r"
    by (simp add: sample_env_def)
  have v: "dkim ?r = ''No selectors provided''" by (simp add: sample_result_def)
  have 1: "contains ''no selectors provided'' (lower (dkim ?r))" unfolding v by code_simp
  have 2: "\<not> contains ''tested common selectors'' (lower (dkim ?r))" unfolding v by code_simp
  from dkim_no_selectors_partial[OF h 1 2, of False initial_world]
  show ?thesis unfolding v by auto
qed

text \<open>
  C4, as the claim states it, fails: a dkim string that contains
  \<open>no selectors provided\<close> in some letter case and does not contain the string
  \<open>tested common selectors\<close>, because it spells it in capitals, is printed with the
  not-found status and not with the partial one.
\<close>

theorem shouted_dkim_not_partial:
  "contains ''no selectors provided'' (lower shouted_dkim)
   \<and> \<not> contains ''tested common selectors'' shouted_dkim
   \<and> (NotFoundOut, ''DKIM Record: '' @ shouted_dkim) \<in> set (terminal (snd
        (process_single_domain (sample_env (\<lambda>d. CheckResult (sample_result d shouted_dkim)))
           ''a.com'' [] 10 False False initial_world)))
   \<and> (PartialOut, ''DKIM Record: '' @ shouted_dkim) \<notin> set (terminal (snd
        (process_single_domain (sample_env (\<lambda>d. CheckResult (sample_result d shouted_dkim)))
           ''a.com'' [] 10 False False initial_world)))"
  by code_simp

section \<open>Properties of the loop over the domains\<close>

lemma print_summary_frame [simp]:
  "checked (print_summary r w) = checked w"
  "files (print_summary r w) = files w"
  "dirs (print_summary r w) = dirs w"
  "config (print_summary r w) = config w"
  by (simp_all add: print_summary_def Let_def print_defs)

lemma domains_loop_files:
  "files (snd (domains_loop e sels t app skip ad n i ds b w)) = files w
   \<and> dirs (snd (domains_loop e sels t app skip ad n i ds b w)) = dirs w"
proof (induction ds arbitrary: i b w)
  case Nil
  then show ?case by simp
next
  case (Cons d ds)
  obtain results successful failed where b: "b = (results, successful, failed)"
    by (cases b) auto
  show ?case
  proof (cases "dns_check e d (selectors_argument sels) t ad")
    case (CheckResult r)
    then show ?thesis using Cons.IH by (simp add: b Let_def print_defs)
  next
    case CheckKeyboardInterrupt
    then show ?thesis by (simp add: b Let_def print_defs)
  next
    case (CheckException msg)
    then show ?thesis by (simp add: b Let_def print_defs)
  qed
qed

lemma domains_loop_raise:
  assumes "d \<in> set ds"
    and "\<forall>r. dns_check e d (selectors_argument sels) t ad \<noteq> CheckResult r"
  shows "fst (domains_loop e sels t app skip ad n i ds b w) = Exits 1"
  using assms(1)
proof (induction ds arbitrary: i b w)
  case Nil
  then show ?case by simp
next
  case (Cons x ds)
  obtain results successful failed where b: "b = (results, successful, failed)"
    by (cases b) auto
  show ?case
  proof (cases "dns_check e x (selectors_argument sels) t ad")
    case (CheckResult r)
    with assms(2) have "x \<noteq> d" by auto
    with Cons.prems have "d \<in> set ds" by simp
    then show ?thesis using Cons.IH CheckResult by (simp add: b Let_def)
  next
    case CheckKeyboardInterrupt
    then show ?thesis by (simp add: b Let_def)
  next
    case (CheckException msg)
    then show ?thesis by (simp add: b Let_def)
  qed
qed

lemma bind_write_checked:
  assumes "\<And>ok w''. checked (snd (f ok w'')) = checked w''"
  shows "checked (snd (bind (write_results_to_csv e rs app) f w0)) = checked w0"
  using assms write_results_frame(1)[of e rs app w0]
  by (cases "write_results_to_csv e rs app w0") (auto simp: bind_def split: outcome.splits)

lemma process_multiple_domains_run:
  "\<exists>K w4. process_multiple_domains e ds sels t app skip ad w =
       bind (domains_loop e sels t app skip ad (length ds) 1 ds ([], 0, 0)) K w4
     \<and> files w4 = files w \<and> dirs w4 = dirs w \<and> checked w4 = checked w
     \<and> (\<forall>b w'. checked (snd (K b w')) = checked w')"
proof -
  define w4 where "w4 = print_plain (rule60 @ newline) (announce_selectors sels ad
     (print_plain (''Processing '' @ str_nat (length ds) @ '' domain(s)'')
        (print_plain (newline @ rule60) w)))"
  define K :: "batch \<Rightarrow> unit action" where "K =
     (\<lambda>(results, successful, failed) w5.
              if results \<noteq> []
              then bind (write_results_to_csv e results app)
                     (\<lambda>ok w6.
                        if ok
                        then (let w7 = print_success (check_mark @
                                         '' Successfully processed '' @ str_nat successful @
                                         '' domain(s)'') w6
                              in return ()
                                   (if failed > 0
                                    then print_warning (warning_sign @ '' '' @
                                           str_nat failed @ '' domain(s) failed'') w7
                                    else w7))
                        else bind (print_error ''Failed to write results to CSV'' True)
                               (\<lambda>u. return ()) w6)
                     (print_info (''Writing '' @ str_nat (length results) @
                        '' result(s) to CSV...'') (print_plain (newline @ rule60) w5))
              else bind (print_error ''No results to write'' True) (\<lambda>u. return ()) w5)"
  have run: "process_multiple_domains e ds sels t app skip ad w =
       bind (domains_loop e sels t app skip ad (length ds) 1 ds ([], 0, 0)) K w4"
    unfolding process_multiple_domains_def Let_def w4_def K_def by (rule refl)
  have f4: "files w4 = files w" "dirs w4 = dirs w" "checked w4 = checked w"
    by (simp_all add: w4_def print_defs)
  have "checked (snd (K b w')) = checked w'" for b w'
  proof -
    obtain results successful failed where b: "b = (results, successful, failed)"
      by (cases b) auto
    show ?thesis
    proof (cases "results = []")
      case True
      then show ?thesis by (simp add: K_def b)
    next
      case False
      then show ?thesis
        by (simp add: K_def b bind_write_checked Let_def return_def print_defs)
    qed
  qed
  with run f4 show ?thesis by blast
qed

lemma process_multiple_domains_raise:
  assumes "d \<in> set ds"
    and "\<forall>r. dns_check e d (selectors_argument sels) t ad \<noteq> CheckResult r"
  shows "fst (process_multiple_domains e ds sels t app skip ad w) = Exits 1
    \<and> files (snd (process_multiple_domains e ds sels t app skip ad w)) = files w
    \<and> dirs (snd (process_multiple_domains e ds sels t app skip ad w)) = dirs w"
proof -
  obtain K w4 where run: "process_multiple_domains e ds sels t app skip ad w =
       bind (domains_loop e sels t app skip ad (length ds) 1 ds ([], 0, 0)) K w4"
    and f4: "files w4 = files w" "dirs w4 = dirs w"
    using process_multiple_domains_run by blast
  obtain w5 where l: "domains_loop e sels t app skip ad (length ds) 1 ds ([], 0, 0) w4 = (Exits 1, w5)"
    using domains_loop_raise[OF assms, of app skip "length ds" 1 "([], 0, 0)" w4]
    by (cases "domains_loop e sels t app skip ad (length ds) 1 ds ([], 0, 0) w4") auto
  have "files w5 = files w4 \<and> dirs w5 = dirs w4"
    using domains_loop_files[of e sels t app skip ad "length ds" 1 ds "([], 0, 0)" w4]
    unfolding l by simp
  then show ?thesis
    unfolding run using l f4 by (simp add: bind_def)
qed

lemma process_single_domain_checked:
  "checked (snd (process_single_domain e d sels t app ad w)) = checked w @ [d]"
proof (cases "dns_check e d (selectors_argument sels) t ad")
  case (CheckResult r)
  have "checked (snd (bind (write_results_to_csv e [r] app) f w')) = checked w'"
    if "\<And>ok w''. checked (snd (f ok w'')) = checked w''" for f :: "bool \<Rightarrow> bool action" and w'
    using that write_results_frame(1)[of e "[r]" app w']
    by (cases "write_results_to_csv e [r] app w'") (auto simp: bind_def split: outcome.splits)
  then show ?thesis using CheckResult
    by (simp add: process_single_domain_def Let_def print_defs return_def)
next
  case CheckKeyboardInterrupt
  then show ?thesis by (simp add: process_single_domain_def Let_def print_defs)
next
  case (CheckException msg)
  then show ?thesis by (simp add: process_single_domain_def Let_def print_defs)
qed

lemma domains_loop_checked_exact:
  "checked (snd (domains_loop e sels t app skip ad n i ds b w)) =
     checked w @ takeWhile (check_returns e sels t ad) ds
       @ take 1 (dropWhile (check_returns e sels t ad) ds)"
proof (induction ds arbitrary: i b w)
  case Nil
  then show ?case by simp
next
  case (Cons d ds)
  obtain results successful failed where b: "b = (results, successful, failed)"
    by (cases b) auto
  show ?case
  proof (cases "dns_check e d (selectors_argument sels) t ad")
    case (CheckResult r)
    then have ok: "check_returns e sels t ad d" by (simp add: check_returns_def)
    show ?thesis
      using CheckResult ok Cons.IH by (simp add: b Let_def print_defs)
  next
    case CheckKeyboardInterrupt
    then have ok: "\<not> check_returns e sels t ad d" by (simp add: check_returns_def)
    show ?thesis
      using CheckKeyboardInterrupt ok by (simp add: b Let_def print_defs)
  next
    case (CheckException msg)
    then have ok: "\<not> check_returns e sels t ad d" by (simp add: check_returns_def)
    show ?thesis
      using CheckException ok by (simp add: b Let_def print_defs)
  qed
qed

lemma process_multiple_domains_checked_exact:
  "checked (snd (process_multiple_domains e ds sels t app skip ad w)) =
     checked w @ takeWhile (check_returns e sels t ad) ds
       @ take 1 (dropWhile (check_returns e sels t ad) ds)"
proof -
  obtain K w4 where run: "process_multiple_domains e ds sels t app skip ad w =
       bind (domains_loop e sels t app skip ad (length ds) 1 ds ([], 0, 0)) K w4"
    and c4: "checked w4 = checked w"
    and K: "\<forall>b w'. checked (snd (K b w')) = checked w'"
    using process_multiple_domains_run by blast
  have "checked (snd (process_multiple_domains e ds sels t app skip ad w)) =
     checked (snd (domains_loop e sels t app skip ad (length ds) 1 ds ([], 0, 0) w4))"
    unfolding run using K
    by (cases "domains_loop e sels t app skip ad (length ds) 1 ds ([], 0, 0) w4")
      (auto simp: bind_def split: outcome.splits)
  then show ?thesis by (simp add: domains_loop_checked_exact c4)
qed

section \<open>Properties of the clean-up of the domain list\<close>

lemma cleanup_elements:
  assumes A: "\<And>s. str_strip py (str_lower py (str_strip py s)) = str_lower py (str_strip py s)"
    and B: "\<And>s. str_lower py (str_lower py s) = str_lower py s"
    and C: "\<And>s. s \<noteq> [] \<Longrightarrow> str_lower py s \<noteq> []"
    and d: "d \<in> set (cleanup_domains_list py ds)"
  shows "str_strip py d = d \<and> str_lower py d = d \<and> d \<noteq> []"
proof -
  from d have "d \<in> set (map (\<lambda>d. str_lower py (str_strip py d))
      (filter (\<lambda>d. str_strip py d \<noteq> []) ds))"
    by (auto simp: cleanup_domains_list_def Let_def unique_loop_set split: if_splits)
  then obtain x where x: "str_strip py x \<noteq> []" "d = str_lower py (str_strip py x)" by auto
  show ?thesis using A[of x] B[of "str_strip py x"] C[OF x(1)] by (simp add: x(2))
qed

lemma cleanup_sorted_distinct:
  "sorted (cleanup_domains_list py ds) \<and> distinct (cleanup_domains_list py ds)"
  by (simp add: cleanup_domains_list_def Let_def unique_loop_distinct)

lemma cleanup_fixed:
  assumes "sorted xs" "distinct xs"
    "\<forall>d\<in>set xs. str_strip py d = d \<and> str_lower py d = d \<and> d \<noteq> []"
  shows "cleanup_domains_list py xs = xs"
proof (cases "xs = []")
  case True
  then show ?thesis by (simp add: cleanup_domains_list_def)
next
  case False
  have f: "filter (\<lambda>d. str_strip py d \<noteq> []) xs = xs" using assms(3) by (simp add: filter_id_conv)
  have m: "map (\<lambda>d. str_lower py (str_strip py d)) xs = xs" using assms(3) by (simp add: map_idI)
  have u: "unique_loop xs {} [] = xs" using assms(2) by (simp add: unique_loop_id)
  have s: "sort xs = xs" using assms(1) by (simp add: sort_key_id_if_sorted)
  show ?thesis using False by (simp add: cleanup_domains_list_def Let_def f m u s)
qed

lemma cleanup_idem:
  assumes A: "\<And>s. str_strip py (str_lower py (str_strip py s)) = str_lower py (str_strip py s)"
    and B: "\<And>s. str_lower py (str_lower py s) = str_lower py s"
    and C: "\<And>s. s \<noteq> [] \<Longrightarrow> str_lower py s \<noteq> []"
  shows "cleanup_domains_list py (cleanup_domains_list py ds) = cleanup_domains_list py ds"
  using cleanup_sorted_distinct[of py ds] cleanup_elements[OF A B C, of _ ds]
  by (intro cleanup_fixed) auto

lemma ascii_ops_laws:
  "str_strip ascii_ops (str_lower ascii_ops (str_strip ascii_ops s)) =
     str_lower ascii_ops (str_strip ascii_ops s)"
  "str_lower ascii_ops (str_lower ascii_ops s) = str_lower ascii_ops s"
  "s \<noteq> [] \<Longrightarrow> str_lower ascii_ops s \<noteq> []"
  by (simp_all add: ascii_ops_def strip_lower strip_idem lower_idem) (simp add: lower_def)

lemma makedirs_frame [simp]:
  "checked (snd (makedirs e p w)) = checked w"
  "files (snd (makedirs e p w)) = files w"
  "terminal (snd (makedirs e p w)) = terminal w"
  by (simp_all add: makedirs_def split: option.splits)

lemma update_path_frame [simp]:
  "checked (snd (update_path e p w)) = checked w"
  "files (snd (update_path e p w)) = files w"
  "terminal (snd (update_path e p w)) = terminal w"
  by (simp_all add: update_path_def makedirs_def Let_def split: option.splits prod.splits sum.splits)

lemma set_output_path_checked [simp]:
  "checked (set_output_path e a w) = checked w"
proof (cases "update_path e (the (arg_output_path a)) w")
  case (Pair ok w')
  then have "checked w' = checked w"
    using update_path_frame(1)[of e "the (arg_output_path a)" w] by simp
  with Pair show ?thesis by (simp add: set_output_path_def print_defs)
qed

lemma validate_args_checked [simp]:
  "checked (snd (validate_args e a w)) = checked w"
  by (simp add: validate_args_def Let_def print_defs return_def)

lemma gather_domains_frame:
  "checked (snd (gather_domains e a w)) = checked w"
  "fst (gather_domains e a w) = fst (gather_domains e a w0)"
  by (simp_all add: gather_domains_def Let_def return_def)

lemma process_domains_checked:
  "checked (snd (process_domains e a sels app gathered w)) =
     checked w @
     takeWhile (check_returns e sels (arg_timeout a) (arg_auto_discover_dkim a))
       (cleanup_domains_list (builtins e) gathered) @
     take 1 (dropWhile (check_returns e sels (arg_timeout a) (arg_auto_discover_dkim a))
       (cleanup_domains_list (builtins e) gathered))"
proof -
  let ?ds = "cleanup_domains_list (builtins e) gathered"
  let ?ok = "check_returns e sels (arg_timeout a) (arg_auto_discover_dkim a)"
  consider "?ds = []" | "?ds \<noteq> []" "length ?ds = 1" | "?ds \<noteq> []" "length ?ds \<noteq> 1" by blast
  then show ?thesis
  proof cases
    case 1
    then show ?thesis by (simp add: process_domains_def)
  next
    case 2
    then obtain d where d: "?ds = [d]" by (cases ?ds) auto
    have "checked (snd (bind (process_single_domain e d sels t app ad) f w)) = checked w @ [d]"
      if "\<And>ok w''. checked (snd (f ok w'')) = checked w''" for f :: "bool \<Rightarrow> unit action" and t ad
      using that process_single_domain_checked[of e d sels t app ad w]
      by (cases "process_single_domain e d sels t app ad w") (auto simp: bind_def split: outcome.splits)
    then have "checked (snd (process_domains e a sels app gathered w)) = checked w @ [d]"
      by (simp add: process_domains_def d sys_exit_def return_def)
    then show ?thesis unfolding d by (cases "?ok d") simp_all
  next
    case 3
    then show ?thesis
      using process_multiple_domains_checked_exact[of e ?ds sels "arg_timeout a" app "arg_skip_errors a"
          "arg_auto_discover_dkim a" w]
      by (simp add: process_domains_def Let_def)
  qed
qed

lemma main_checked:
  assumes "fst (validate_args e a w) = Returns v"
    and "fst (gather_domains e a w0) = Returns gathered"
  shows "checked (snd (main e a w)) =
     checked w @
     takeWhile (check_returns e (parse_selectors (builtins e) (arg_selector a) (arg_selectors a))
                  (arg_timeout a) (arg_auto_discover_dkim a))
       (cleanup_domains_list (builtins e) gathered) @
     take 1 (dropWhile (check_returns e (parse_selectors (builtins e) (arg_selector a) (arg_selectors a))
                  (arg_timeout a) (arg_auto_discover_dkim a))
       (cleanup_domains_list (builtins e) gathered))"
proof -
  obtain w1 where va: "validate_args e a w = (Returns v, w1)"
    using assms(1) by (cases "validate_args e a w") auto
  then have c1: "checked w1 = checked w" using validate_args_checked[of e a w] by simp
  define w2 where "w2 = set_output_path e a w1"
  have c2: "checked w2 = checked w" by (simp add: w2_def c1)
  have "fst (gather_domains e a w2) = Returns gathered"
    using assms(2) gather_domains_frame(2)[of e a w2 w0] by simp
  then obtain w3 where g: "gather_domains e a w2 = (Returns gathered, w3)"
    by (cases "gather_domains e a w2") auto
  then have c3: "checked w3 = checked w"
    using gather_domains_frame(1)[of e a w2] c2 by simp
  have "main e a w = process_domains e a (parse_selectors (builtins e) (arg_selector a) (arg_selectors a))
      (lower (arg_append a) = ''yes'') gathered w3"
    using va g by (simp add: main_def bind_def Let_def w2_def)
  then show ?thesis by (simp add: process_domains_checked c3)
qed

lemma main_invalid_checked:
  assumes "fst (validate_args e a w) = Exits n"
  shows "checked (snd (main e a w)) = checked w"
proof -
  obtain w1 where va: "validate_args e a w = (Exits n, w1)"
    using assms by (cases "validate_args e a w") auto
  then have c1: "checked w1 = checked w" using validate_args_checked[of e a w] by simp
  show ?thesis using va c1 by (simp add: main_def bind_def)
qed


text \<open>
  C9. For \<open>str.strip\<close> and \<open>str.lower\<close> as they are in Python (lowering a stripped string
  gives a stripped string, lowering twice is lowering once, and lowering a non-empty
  string gives a non-empty one), the list \<open>cleanup_domains_list\<close> returns is sorted in
  ascending order, has no duplicate and no empty string, and each of its elements is
  stripped of whitespace and in lower case; so cleaning a cleaned list changes nothing.
  When the arguments are valid and \<open>main\<close> has gathered its domains from them or from
  the input file, the domains it hands to the check are, in this order, those of the
  cleaned list up to and including the first whose check raises: all of the sorted list,
  in sorted order and not in the given one, when no check raises.
\<close>

theorem cleanup_domains_list_sorted_unique:
  assumes "\<forall>s. str_strip py (str_lower py (str_strip py s)) = str_lower py (str_strip py s)"
    and "\<forall>s. str_lower py (str_lower py s) = str_lower py s"
    and "\<forall>s. s \<noteq> [] \<longrightarrow> str_lower py s \<noteq> []"
  shows "sorted (cleanup_domains_list py ds) \<and> distinct (cleanup_domains_list py ds)
   \<and> [] \<notin> set (cleanup_domains_list py ds)
   \<and> (\<forall>d\<in>set (cleanup_domains_list py ds). str_strip py d = d \<and> str_lower py d = d)
   \<and> cleanup_domains_list py (cleanup_domains_list py ds) = cleanup_domains_list py ds
   \<and> (builtins e = py \<and> fst (validate_args e a w) = Returns v
        \<and> fst (gather_domains e a w0) = Returns ds \<longrightarrow>
        checked (snd (main e a w)) =
          checked w @
          takeWhile (check_returns e (parse_selectors py (arg_selector a) (arg_selectors a))
                       (arg_timeout a) (arg_auto_discover_dkim a))
            (cleanup_domains_list py ds) @
          take 1 (dropWhile (check_returns e (parse_selectors py (arg_selector a) (arg_selectors a))
                       (arg_timeout a) (arg_auto_discover_dkim a))
            (cleanup_domains_list py ds)))
   \<and> (builtins e = py \<and> fst (validate_args e a w) = Returns v
        \<and> fst (gather_domains e a w0) = Returns ds
        \<and> (\<forall>d\<in>set (cleanup_domains_list py ds).
              check_returns e (parse_selectors py (arg_selector a) (arg_selectors a))
                (arg_timeout a) (arg_auto_discover_dkim a) d) \<longrightarrow>
        checked (snd (main e a w)) = checked w @ cleanup_domains_list py ds)"
proof -
  have A: "\<And>s. str_strip py (str_lower py (str_strip py s)) = str_lower py (str_strip py s)"
    and B: "\<And>s. str_lower py (str_lower py s) = str_lower py s"
    and C: "\<And>s. s \<noteq> [] \<Longrightarrow> str_lower py s \<noteq> []"
    using assms by simp_all
  have el: "str_strip py d = d \<and> str_lower py d = d \<and> d \<noteq> []"
    if "d \<in> set (cleanup_domains_list py ds)" for d
    using cleanup_elements[OF A B C that] .
  have m: "checked (snd (main e a w)) =
          checked w @
          takeWhile (check_returns e (parse_selectors py (arg_selector a) (arg_selectors a))
                       (arg_timeout a) (arg_auto_discover_dkim a))
            (cleanup_domains_list py ds) @
          take 1 (dropWhile (check_returns e (parse_selectors py (arg_selector a) (arg_selectors a))
                       (arg_timeout a) (arg_auto_discover_dkim a))
            (cleanup_domains_list py ds))"
    if "builtins e = py" "fst (validate_args e a w) = Returns v"
      "fst (gather_domains e a w0) = Returns ds"
    using main_checked[OF that(2,3)] that(1) by simp
  have m2: "checked (snd (main e a w)) = checked w @ cleanup_domains_list py ds"
    if "builtins e = py" "fst (validate_args e a w) = Returns v"
      "fst (gather_domains e a w0) = Returns ds"
      "\<forall>d\<in>set (cleanup_domains_list py ds).
              check_returns e (parse_selectors py (arg_selector a) (arg_selectors a))
                (arg_timeout a) (arg_auto_discover_dkim a) d"
  proof -
    have tw: "takeWhile (check_returns e (parse_selectors py (arg_selector a) (arg_selectors a))
                       (arg_timeout a) (arg_auto_discover_dkim a))
            (cleanup_domains_list py ds) = cleanup_domains_list py ds"
      using that(4) by (simp add: takeWhile_eq_all_conv)
    have dw: "dropWhile (check_returns e (parse_selectors py (arg_selector a) (arg_selectors a))
                       (arg_timeout a) (arg_auto_discover_dkim a))
            (cleanup_domains_list py ds) = []"
      using that(4) by (simp add: dropWhile_eq_Nil_conv)
    show ?thesis unfolding m[OF that(1-3)] tw dw by simp
  qed
  show ?thesis
    using cleanup_sorted_distinct[of py ds] el cleanup_idem[OF A B C, of ds] m m2
    by (intro conjI impI ballI) auto
qed

theorem cleanup_domains_list_sorted_unique_witness:
  "cleanup_domains_list ascii_ops [''b.com '', ''A.com'', ''b.com''] = [''a.com'', ''b.com'']
   \<and> sorted [''a.com'', ''b.com'']
   \<and> str_strip ascii_ops ''a.com'' = ''a.com'' \<and> str_lower ascii_ops ''b.com'' = ''b.com''
   \<and> checked (snd (main
          (sample_env (\<lambda>d. CheckResult (sample_result d ''No selectors provided'')))
          sample_args initial_world)) = [''a.com'', ''b.com'']"
proof -
  let ?e = "sample_env (\<lambda>d. CheckResult (sample_result d ''No selectors provided''))"
  have L1: "\<forall>s. str_strip ascii_ops (str_lower ascii_ops (str_strip ascii_ops s)) =
      str_lower ascii_ops (str_strip ascii_ops s)"
    and L2: "\<forall>s. str_lower ascii_ops (str_lower ascii_ops s) = str_lower ascii_ops s"
    and L3: "\<forall>s. s \<noteq> [] \<longrightarrow> str_lower ascii_ops s \<noteq> []"
    using ascii_ops_laws by blast+
  have b: "builtins ?e = ascii_ops" by (simp add: sample_env_def)
  have v: "fst (validate_args ?e sample_args initial_world) = Returns True"
    by (simp add: validate_args_def sample_args_def given_def Let_def return_def sample_env_def)
  have g: "fst (gather_domains ?e sample_args initial_world) =
      Returns [''b.com '', ''A.com'', ''b.com'']"
    by (simp add: gather_domains_def sample_args_def given_def Let_def return_def sample_env_def)
  have c: "cleanup_domains_list ascii_ops [''b.com '', ''A.com'', ''b.com''] = [''a.com'', ''b.com'']"
    by code_simp
  have i: "checked initial_world = []" by (simp add: initial_world_def)
  have r: "check_returns ?e sels t ad d" for sels t ad d
    by (simp add: check_returns_def sample_env_def)
  from cleanup_domains_list_sorted_unique[OF L1 L2 L3, of "[''b.com '', ''A.com'', ''b.com'']"
      ?e sample_args initial_world True initial_world]
  show ?thesis unfolding c i using b v g c r by auto
qed

section \<open>The batch run loses its results\<close>

text \<open>
  C3. The claim is that the results collected before a failure are written before the
  process exits, and that with \<open>skip_errors\<close> the remaining domains are processed. The
  code exits inside \<open>print_error\<close>, whose \<open>fatal\<close> is true by default, before it
  reaches the write (\<open>process_multiple_domains_raise\<close> above: whenever a check raises,
  the run exits with status 1 and no file is touched). Here with three domains of which
  the second raises, an exception or a keyboard interrupt: the process exits with status
  1, the output file does not exist, and with \<open>skip_errors\<close> the third domain is never
  checked.
\<close>

theorem process_multiple_domains_drops_results:
  "fst (process_multiple_domains (sample_env (raising_at ''b.com'' (CheckException ''boom'')))
          [''a.com'', ''b.com'', ''c.com''] [] 10 False False False initial_world) = Exits 1
   \<and> files (snd (process_multiple_domains
          (sample_env (raising_at ''b.com'' (CheckException ''boom'')))
          [''a.com'', ''b.com'', ''c.com''] [] 10 False False False initial_world))
        (get_output_filepath initial_world) = None
   \<and> fst (process_multiple_domains (sample_env (raising_at ''b.com'' CheckKeyboardInterrupt))
          [''a.com'', ''b.com'', ''c.com''] [] 10 False False False initial_world) = Exits 1
   \<and> files (snd (process_multiple_domains
          (sample_env (raising_at ''b.com'' CheckKeyboardInterrupt))
          [''a.com'', ''b.com'', ''c.com''] [] 10 False False False initial_world))
        (get_output_filepath initial_world) = None
   \<and> fst (process_multiple_domains (sample_env (raising_at ''b.com'' (CheckException ''boom'')))
          [''a.com'', ''b.com'', ''c.com''] [] 10 False True False initial_world) = Exits 1
   \<and> checked (snd (process_multiple_domains
          (sample_env (raising_at ''b.com'' (CheckException ''boom'')))
          [''a.com'', ''b.com'', ''c.com''] [] 10 False True False initial_world))
        = [''a.com'', ''b.com'']"
  by code_simp

section \<open>Properties of the resolution engine\<close>

lemma try_selectors_all_fail:
  assumes "\<forall>x\<in>set sels. \<forall>u. classify pick_dkim (resolver cfg (dkim_name x d) TXT t) \<noteq> Found u"
  shows "try_selectors cfg d t sels fails st =
     ((None, fails @ map (\<lambda>x. (x, classify pick_dkim (resolver cfg (dkim_name x d) TXT t))) sels),
      st\<lparr>queries := queries st @ map (\<lambda>x. (dkim_name x d, TXT)) sels\<rparr>)"
  using assms
proof (induction sels arbitrary: fails st)
  case Nil
  then show ?case by simp
next
  case (Cons x sels)
  then have nf: "\<forall>u. classify pick_dkim (resolver cfg (dkim_name x d) TXT t) \<noteq> Found u"
    and rest: "\<forall>x\<in>set sels. \<forall>u. classify pick_dkim (resolver cfg (dkim_name x d) TXT t) \<noteq> Found u"
    by simp_all
  show ?case
    using nf Cons.IH[OF rest]
    by (cases "classify pick_dkim (resolver cfg (dkim_name x d) TXT t)") (simp_all add: query_def)
qed

lemma try_selectors_first_found:
  assumes "\<forall>x\<in>set pre. \<forall>u. classify pick_dkim (resolver cfg (dkim_name x d) TXT t) \<noteq> Found u"
    and "classify pick_dkim (resolver cfg (dkim_name s d) TXT t) = Found v"
  shows "try_selectors cfg d t (pre @ s # post) fails st =
     ((Some v, fails @ map (\<lambda>x. (x, classify pick_dkim (resolver cfg (dkim_name x d) TXT t))) pre),
      st\<lparr>queries := queries st @ map (\<lambda>x. (dkim_name x d, TXT)) (pre @ [s])\<rparr>)"
  using assms(1)
proof (induction pre arbitrary: fails st)
  case Nil
  then show ?case using assms(2) by (simp add: query_def)
next
  case (Cons x pre)
  then have nf: "\<forall>u. classify pick_dkim (resolver cfg (dkim_name x d) TXT t) \<noteq> Found u"
    and rest: "\<forall>x\<in>set pre. \<forall>u. classify pick_dkim (resolver cfg (dkim_name x d) TXT t) \<noteq> Found u"
    by simp_all
  show ?case
    using nf Cons.IH[OF rest]
    by (cases "classify pick_dkim (resolver cfg (dkim_name x d) TXT t)") (simp_all add: query_def)
qed



lemma note_failures_frame [simp]:
  "queries (note_failures cfg fs st) = queries st"
  "diagnostics (note_failures cfg fs st) =
     diagnostics st @ map (\<lambda>(selector, outcome). diagnostic cfg selector outcome) fs"
  by (simp_all add: note_failures_def)

lemma note_trouble_frame [simp]:
  "queries (note_trouble cfg l out st) = queries st"
  by (simp add: note_trouble_def)

lemma discover_found:
  assumes "\<forall>x\<in>set pre. \<forall>u. classify pick_dkim (resolver cfg (dkim_name x d) TXT t) \<noteq> Found u"
    and "classify pick_dkim (resolver cfg (dkim_name s d) TXT t) = Found v"
  shows "fst (discover_dkim cfg d (pre @ s # post) ad t st) = v"
    and "queries (snd (discover_dkim cfg d (pre @ s # post) ad t st)) =
           queries st @ map (\<lambda>x. (dkim_name x d, TXT)) (pre @ [s])"
  by (simp_all add: discover_dkim_def try_selectors_first_found[OF assms])

lemma discover_all_fail:
  assumes "sels \<noteq> []"
    and "\<forall>x\<in>set sels. \<forall>u. classify pick_dkim (resolver cfg (dkim_name x d) TXT t) \<noteq> Found u"
  shows "fst (discover_dkim cfg d sels ad t st) = ''No valid selectors found''"
    and "queries (snd (discover_dkim cfg d sels ad t st)) =
           queries st @ map (\<lambda>x. (dkim_name x d, TXT)) sels"
    and "diagnostics (snd (discover_dkim cfg d sels ad t st)) =
           diagnostics st @
           map (\<lambda>x. diagnostic cfg x (classify pick_dkim (resolver cfg (dkim_name x d) TXT t))) sels"
  using assms(1)
  by (simp_all add: discover_dkim_def try_selectors_all_fail[OF assms(2)] comp_def)





lemma checkDomain_shape:
  "\<exists>st4 st5. queries st4 = [(d, MX), (d, TXT)]
     \<and> discover_dkim cfg d sels ad t st4 = (dkim (fst (checkDomain cfg d sels t ad)), st5)
     \<and> snd (checkDomain cfg d sels t ad) = queries st5 @ [(dmarc_name d, TXT)]
     \<and> mx (fst (checkDomain cfg d sels t ad)) =
         format_outcome ''MX'' (classify (pick_mx cfg) (resolver cfg d MX t))
     \<and> spf (fst (checkDomain cfg d sels t ad)) =
         format_outcome ''SPF'' (classify pick_spf (resolver cfg d TXT t))
     \<and> dmarc (fst (checkDomain cfg d sels t ad)) =
         format_outcome ''DMARC'' (classify pick_dmarc (resolver cfg (dmarc_name d) TXT t))
     \<and> domain (fst (checkDomain cfg d sels t ad)) = d
     \<and> (\<exists>more. errors (fst (checkDomain cfg d sels t ad)) = diagnostics st5 @ more)"
proof -
  define st4 where "st4 = note_trouble cfg ''SPF'' (classify pick_spf (resolver cfg d TXT t))
     ((note_trouble cfg ''MX'' (classify (pick_mx cfg) (resolver cfg d MX t))
        (\<lparr>queries = [], diagnostics = []\<rparr>\<lparr>queries := [(d, MX)]\<rparr>))
      \<lparr>queries := [(d, MX), (d, TXT)]\<rparr>)"
  obtain f st5 where dk: "discover_dkim cfg d sels ad t st4 = (f, st5)"
    by (cases "discover_dkim cfg d sels ad t st4") auto
  have q4: "queries st4 = [(d, MX), (d, TXT)]" by (simp add: st4_def)
  have "checkDomain cfg d sels t ad =
     (\<lparr>domain = d,
       mx = format_outcome ''MX'' (classify (pick_mx cfg) (resolver cfg d MX t)),
       spf = format_outcome ''SPF'' (classify pick_spf (resolver cfg d TXT t)),
       dkim = f,
       dmarc = format_outcome ''DMARC'' (classify pick_dmarc (resolver cfg (dmarc_name d) TXT t)),
       errors = diagnostics (note_trouble cfg ''DMARC''
          (classify pick_dmarc (resolver cfg (dmarc_name d) TXT t))
          (st5\<lparr>queries := queries st5 @ [(dmarc_name d, TXT)]\<rparr>))\<rparr>,
      queries st5 @ [(dmarc_name d, TXT)])"
    using dk by (simp add: checkDomain_def Let_def query_def st4_def)
  then show ?thesis
    using dk q4 by (intro exI[of _ st4] exI[of _ st5]) (auto simp: note_trouble_def)
qed

text \<open>
  C7. With a non-empty list of explicit selectors, discovery queries the selectors in
  the given order and stops at the first whose query is \<open>Found\<close>: when the selectors
  before \<open>s\<close> are not found and \<open>s\<close> is, the dkim field is the value of \<open>s\<close> and the
  queries issued are those of the selectors up to \<open>s\<close>, in order, and no other. When
  every selector fails, all are queried in order, the dkim field is
  \<open>No valid selectors found\<close>, and the failures of the selectors, one for each in order,
  are appended to the errors of the result.
\<close>

theorem explicit_selectors_first_match:
  "((\<forall>x\<in>set pre. \<forall>u. classify pick_dkim (resolver cfg (dkim_name x d) TXT t) \<noteq> Found u)
      \<and> classify pick_dkim (resolver cfg (dkim_name s d) TXT t) = Found v
     \<longrightarrow> fst (discover_dkim cfg d (pre @ s # post) ad t st) = v
         \<and> queries (snd (discover_dkim cfg d (pre @ s # post) ad t st)) =
             queries st @ map (\<lambda>x. (dkim_name x d, TXT)) (pre @ [s])
         \<and> dkim (fst (checkDomain cfg d (pre @ s # post) t ad)) = v)
   \<and> (sels \<noteq> []
      \<and> (\<forall>x\<in>set sels. \<forall>u. classify pick_dkim (resolver cfg (dkim_name x d) TXT t) \<noteq> Found u)
     \<longrightarrow> fst (discover_dkim cfg d sels ad t st) = ''No valid selectors found''
         \<and> queries (snd (discover_dkim cfg d sels ad t st)) =
             queries st @ map (\<lambda>x. (dkim_name x d, TXT)) sels
         \<and> diagnostics (snd (discover_dkim cfg d sels ad t st)) =
             diagnostics st @
             map (\<lambda>x. diagnostic cfg x (classify pick_dkim (resolver cfg (dkim_name x d) TXT t)))
               sels
         \<and> dkim (fst (checkDomain cfg d sels t ad)) = ''No valid selectors found''
         \<and> (\<exists>before after. errors (fst (checkDomain cfg d sels t ad)) =
               before @
               map (\<lambda>x. diagnostic cfg x (classify pick_dkim (resolver cfg (dkim_name x d) TXT t)))
                 sels @ after))"
proof (intro conjI impI)
  assume a: "(\<forall>x\<in>set pre. \<forall>u. classify pick_dkim (resolver cfg (dkim_name x d) TXT t) \<noteq> Found u)
      \<and> classify pick_dkim (resolver cfg (dkim_name s d) TXT t) = Found v"
  then have p: "\<forall>x\<in>set pre. \<forall>u. classify pick_dkim (resolver cfg (dkim_name x d) TXT t) \<noteq> Found u"
    and f: "classify pick_dkim (resolver cfg (dkim_name s d) TXT t) = Found v" by simp_all
  show "fst (discover_dkim cfg d (pre @ s # post) ad t st) = v"
    by (rule discover_found(1)[OF p f])
  show "queries (snd (discover_dkim cfg d (pre @ s # post) ad t st)) =
          queries st @ map (\<lambda>x. (dkim_name x d, TXT)) (pre @ [s])"
    by (rule discover_found(2)[OF p f])
  obtain st4 st5 where "discover_dkim cfg d (pre @ s # post) ad t st4 =
      (dkim (fst (checkDomain cfg d (pre @ s # post) t ad)), st5)"
    using checkDomain_shape[of d cfg "pre @ s # post" ad t] by blast
  then have "dkim (fst (checkDomain cfg d (pre @ s # post) t ad)) =
      fst (discover_dkim cfg d (pre @ s # post) ad t st4)" by simp
  then show "dkim (fst (checkDomain cfg d (pre @ s # post) t ad)) = v"
    by (simp add: discover_found(1)[OF p f])
next
  assume a: "sels \<noteq> []
      \<and> (\<forall>x\<in>set sels. \<forall>u. classify pick_dkim (resolver cfg (dkim_name x d) TXT t) \<noteq> Found u)"
  then have n: "sels \<noteq> []"
    and p: "\<forall>x\<in>set sels. \<forall>u. classify pick_dkim (resolver cfg (dkim_name x d) TXT t) \<noteq> Found u"
    by simp_all
  show "fst (discover_dkim cfg d sels ad t st) = ''No valid selectors found''"
    by (rule discover_all_fail(1)[OF n p])
  show "queries (snd (discover_dkim cfg d sels ad t st)) =
          queries st @ map (\<lambda>x. (dkim_name x d, TXT)) sels"
    by (rule discover_all_fail(2)[OF n p])
  show "diagnostics (snd (discover_dkim cfg d sels ad t st)) =
          diagnostics st @
          map (\<lambda>x. diagnostic cfg x (classify pick_dkim (resolver cfg (dkim_name x d) TXT t))) sels"
    by (rule discover_all_fail(3)[OF n p])
  obtain st4 st5 more where dk: "discover_dkim cfg d sels ad t st4 =
      (dkim (fst (checkDomain cfg d sels t ad)), st5)"
    and er: "errors (fst (checkDomain cfg d sels t ad)) = diagnostics st5 @ more"
    using checkDomain_shape[of d cfg sels ad t] by blast
  from dk have "dkim (fst (checkDomain cfg d sels t ad)) = fst (discover_dkim cfg d sels ad t st4)"
    by simp
  then show "dkim (fst (checkDomain cfg d sels t ad)) = ''No valid selectors found''"
    by (simp add: discover_all_fail(1)[OF n p])
  from dk have "st5 = snd (discover_dkim cfg d sels ad t st4)" by simp
  then have "diagnostics st5 = diagnostics st4 @
      map (\<lambda>x. diagnostic cfg x (classify pick_dkim (resolver cfg (dkim_name x d) TXT t))) sels"
    by (simp add: discover_all_fail(3)[OF n p])
  with er show "\<exists>before after. errors (fst (checkDomain cfg d sels t ad)) =
      before @
      map (\<lambda>x. diagnostic cfg x (classify pick_dkim (resolver cfg (dkim_name x d) TXT t))) sels
      @ after"
    by (intro exI[of _ "diagnostics st4"] exI[of _ more]) simp
qed

theorem explicit_selectors_first_match_witness:
  "fst (discover_dkim sample_dns ''example.com'' [''a'', ''b'', ''c''] False 5
          \<lparr>queries = [], diagnostics = []\<rparr>) = ''v=DKIM1; k=rsa; p=MIGf''
   \<and> queries (snd (discover_dkim sample_dns ''example.com'' [''a'', ''b'', ''c''] False 5
          \<lparr>queries = [], diagnostics = []\<rparr>)) =
       [(''a._domainkey.example.com'', TXT), (''b._domainkey.example.com'', TXT)]
   \<and> fst (discover_dkim nxdomain_dns ''example.com'' [''s1'', ''s2''] False 5
          \<lparr>queries = [], diagnostics = []\<rparr>) = ''No valid selectors found''
   \<and> diagnostics (snd (discover_dkim nxdomain_dns ''example.com'' [''s1'', ''s2''] False 5
          \<lparr>queries = [], diagnostics = []\<rparr>)) =
       [''s1: Domain does not exist'', ''s2: Domain does not exist'']"
proof -
  have a: "\<forall>x\<in>set [''a'']. \<forall>u.
      classify pick_dkim (resolver sample_dns (dkim_name x ''example.com'') TXT 5) \<noteq> Found u"
    by (simp add: sample_dns_def dkim_name_def classify_def)
  have b: "classify pick_dkim (resolver sample_dns (dkim_name ''b'' ''example.com'') TXT 5) =
      Found ''v=DKIM1; k=rsa; p=MIGf''"
    by (simp add: sample_dns_def dkim_name_def classify_def pick_dkim_def)
  have n: "\<forall>x\<in>set [''s1'', ''s2'']. \<forall>u.
      classify pick_dkim (resolver nxdomain_dns (dkim_name x ''example.com'') TXT 5) \<noteq> Found u"
    by (simp add: nxdomain_dns_def classify_def)
  have c: "classify pick_dkim (resolver nxdomain_dns (dkim_name x ''example.com'') TXT 5) =
      NonexistentDomain" for x
    by (simp add: nxdomain_dns_def classify_def)
  have g: "diagnostic nxdomain_dns x NonexistentDomain = x @ '': Domain does not exist''" for x
    by (simp add: nxdomain_dns_def format_outcome_def)
  note T1 = explicit_selectors_first_match[of "[''a'']" sample_dns "''example.com''" 5 "''b''"
      "''v=DKIM1; k=rsa; p=MIGf''" "[''c'']" False "\<lparr>queries = [], diagnostics = []\<rparr>" "[]",
      THEN conjunct1, rule_format, OF conjI, OF a b]
  note T2 = explicit_selectors_first_match[of "[]" nxdomain_dns "''example.com''" 5 "''b''"
      "''v''" "[]" False "\<lparr>queries = [], diagnostics = []\<rparr>" "[''s1'', ''s2'']",
      THEN conjunct2, rule_format, OF conjI, OF _ n]
  have A: "fst (discover_dkim sample_dns ''example.com'' [''a'', ''b'', ''c''] False 5
          \<lparr>queries = [], diagnostics = []\<rparr>) = ''v=DKIM1; k=rsa; p=MIGf''
   \<and> queries (snd (discover_dkim sample_dns ''example.com'' [''a'', ''b'', ''c''] False 5
          \<lparr>queries = [], diagnostics = []\<rparr>)) =
       [(''a._domainkey.example.com'', TXT), (''b._domainkey.example.com'', TXT)]"
    using T1 by (simp add: dkim_name_def)
  have B: "fst (discover_dkim nxdomain_dns ''example.com'' [''s1'', ''s2''] False 5
          \<lparr>queries = [], diagnostics = []\<rparr>) = ''No valid selectors found''
   \<and> diagnostics (snd (discover_dkim nxdomain_dns ''example.com'' [''s1'', ''s2''] False 5
          \<lparr>queries = [], diagnostics = []\<rparr>)) =
       [''s1: Domain does not exist'', ''s2: Domain does not exist'']"
    using T2 by (simp add: c g)
  from A B show ?thesis by simp
qed




end
